theory Spec2Isabelle
  imports Complex_Main
begin

section \<open>JavaScript numbers\<close>

text \<open>
  The program is TypeScript; every numeric value is a JavaScript \<^verbatim>\<open>number\<close>, an IEEE 754
  double. The embedding uses \<^typ>\<open>int\<close> for the quantities the program keeps integral
  (the generator seed, flux, the upgrade levels, quantities, prices) and \<^typ>\<open>real\<close> for
  the fractional ones (draws, rates, weights, stat and modifier values).

  An integer result is put through \<open>fl\<close>, the rounding of an integer to the nearest
  double, which is the identity below \<open>2 ^ 53\<close>. In the generator, the success rate and
  \<^verbatim>\<open>performMutation\<close> every operation \<^verbatim>\<open>+\<close>, \<^verbatim>\<open>-\<close>, \<^verbatim>\<open>*\<close>, \<^verbatim>\<open>/\<close> on a
  fractional value is followed by \<open>rd\<close>, the rounding of a real number to the nearest
  double: ties go to the even significand, a significand has 53 bits, and below
  \<open>2 ^ - 1022\<close> the doubles are the multiples of \<open>2 ^ - 1074\<close> (gradual underflow). A
  decimal literal \<^verbatim>\<open>0.7\<close> of the source is the double \<open>rd 0.7\<close>; comparisons,
  \<^verbatim>\<open>Math.min\<close>, \<^verbatim>\<open>Math.max\<close> and \<^verbatim>\<open>Math.floor\<close> are exact on doubles.
  \<^verbatim>\<open>Infinity\<close> and \<^verbatim>\<open>NaN\<close> are not values of the embedding and \<open>rd\<close> has no largest
  exponent: where a result of the source can exceed the largest double, the statement
  about it assumes that it stays below \<open>2 ^ 1024\<close>. The remaining functions (costs,
  shatter values, device statistics, marketplace prices) are computed over the reals
  without rounding.
\<close>

function bitlen :: "int \<Rightarrow> nat" where
  "bitlen n = (if n \<le> 0 then 0 else Suc (bitlen (n div 2)))"
  by pat_completeness auto
termination
  by (relation "measure nat") auto

declare bitlen.simps [simp del]

definition fl :: "int \<Rightarrow> int" where
  \<comment> \<open>round to nearest, ties to even, at 53 bits of precision (no overflow to Infinity)\<close>
  "fl n =
     (if \<bar>n\<bar> < 2 ^ 53 then n
      else let k = bitlen \<bar>n\<bar> - 53;
               q = \<bar>n\<bar> div 2 ^ k;
               r = \<bar>n\<bar> mod 2 ^ k;
               h = 2 ^ (k - 1);
               q' = (if h < r \<or> (r = h \<and> odd q) then q + 1 else q)
           in sgn n * (q' * 2 ^ k))"

definition pow2 :: "int \<Rightarrow> real" where
  "pow2 e = (if 0 \<le> e then 2 ^ nat e else 1 / 2 ^ nat (- e))"

definition expo :: "real \<Rightarrow> int" where
  \<comment> \<open>the exponent of a number other than 0: \<open>2 ^ expo x \<le> \<bar>x\<bar> < 2 ^ (expo x + 1)\<close>\<close>
  "expo x =
     (if 1 \<le> \<bar>x\<bar> then int (bitlen \<lfloor>\<bar>x\<bar>\<rfloor>) - 1
      else - int (bitlen (\<lceil>1 / \<bar>x\<bar>\<rceil> - 1)))"

definition ulp :: "real \<Rightarrow> real" where
  \<comment> \<open>the distance between the doubles around \<open>x\<close>\<close>
  "ulp x = pow2 (max (expo x) (- 1022) - 52)"

definition roundEven :: "real \<Rightarrow> int" where
  \<comment> \<open>the nearest integer, the even one of two that are equally near\<close>
  "roundEven y =
     (let n = \<lfloor>y\<rfloor>; r = y - of_int n
      in if r < 1 / 2 then n
         else if 1 / 2 < r then n + 1
         else if even n then n else n + 1)"

definition rd :: "real \<Rightarrow> real" where
  \<comment> \<open>round to nearest, ties to even, to a double\<close>
  "rd x = (if x = 0 then 0 else of_int (roundEven (x / ulp x)) * ulp x)"

definition jsRem :: "int \<Rightarrow> int \<Rightarrow> int" where
  \<comment> \<open>the operator \<^verbatim>\<open>%\<close>: the remainder takes the sign of the dividend\<close>
  "jsRem a b = sgn a * (\<bar>a\<bar> mod \<bar>b\<bar>)"

function showNat :: "nat \<Rightarrow> string" where
  "showNat n =
     (if n < 10 then [''0123456789'' ! n]
      else showNat (n div 10) @ [''0123456789'' ! (n mod 10)])"
  by pat_completeness auto
termination
  by (relation "measure id") auto

declare showNat.simps [simp del]

definition showInt :: "int \<Rightarrow> string" where
  \<comment> \<open>an integer inside a template literal\<close>
  "showInt i = (if i < 0 then ''-'' @ showNat (nat (- i)) else showNat (nat i))"

section \<open>VoidRNG (server/gameLogic.ts and client/src/lib/rng.ts)\<close>

text \<open>
  The two copies of the class are the same text. The state of an instance is its field
  \<^verbatim>\<open>seed\<close>. The constructor reads the clock when \<^verbatim>\<open>seed || Date.now()\<close> takes
  its right operand, that is when the argument is absent or falsy; the clock reading
  \<open>now\<close> is an argument of the model.
\<close>

type_synonym VoidRNG = int

definition VoidRNG_new :: "int option \<Rightarrow> int \<Rightarrow> VoidRNG" where
  "VoidRNG_new seed now =
     (case seed of
        None \<Rightarrow> now
      | Some s \<Rightarrow> (if s = 0 then now else s))"

definition "next" :: "VoidRNG \<Rightarrow> real \<times> VoidRNG" where
  "next seed =
     (let seed' = jsRem (fl (fl (seed * 9301) + 49297)) 233280
      in (rd (real_of_int seed' / 233280), seed'))"

definition random :: "real \<Rightarrow> real \<Rightarrow> VoidRNG \<Rightarrow> real \<times> VoidRNG" where
  "random mn mx seed =
     (let (r, seed') = next seed in (rd (mn + rd (r * rd (mx - mn))), seed'))"

definition randomInt :: "real \<Rightarrow> real \<Rightarrow> VoidRNG \<Rightarrow> int \<times> VoidRNG" where
  "randomInt mn mx seed =
     (let (r, seed') = random mn (rd (mx + 1)) seed in (\<lfloor>r\<rfloor>, seed'))"

text \<open>
  \<^verbatim>\<open>weightedChoice\<close>: the loop returns at the first item whose running weight reaches the
  draw; after the loop the last item is returned, and \<^verbatim>\<open>items[items.length - 1].item\<close>
  throws a TypeError on an empty array (\<open>None\<close>).
\<close>

fun walk :: "real \<Rightarrow> real \<Rightarrow> ('a \<times> real) list \<Rightarrow> 'a option" where
  "walk randomValue currentWeight [] = None"
| "walk randomValue currentWeight ((item, weight) # items) =
     (let currentWeight' = rd (currentWeight + weight)
      in if randomValue \<le> currentWeight' then Some item
         else walk randomValue currentWeight' items)"

definition weightedChoice :: "('a \<times> real) list \<Rightarrow> VoidRNG \<Rightarrow> 'a option \<times> VoidRNG" where
  "weightedChoice items seed =
     (let totalWeight = foldl (\<lambda>sum item. rd (sum + snd item)) 0 items;
          (randomValue, seed') = random 0 totalWeight seed
      in case walk randomValue 0 items of
           Some item \<Rightarrow> (Some item, seed')
         | None \<Rightarrow> (if items = [] then None else Some (fst (last items)), seed'))"

definition rollRarity :: "real \<Rightarrow> VoidRNG \<Rightarrow> string \<times> VoidRNG" where
  "rollRarity bonusChance seed =
     (let (roll, seed') = next seed;
          adjustedRoll = min (rd (roll + bonusChance)) (rd 0.999999)
      in (if adjustedRoll > rd 0.999995 then ''void_touched''
          else if adjustedRoll > rd 0.9999 then ''mythic''
          else if adjustedRoll > rd 0.999 then ''legendary''
          else if adjustedRoll > rd 0.99 then ''epic''
          else if adjustedRoll > rd 0.95 then ''rare''
          else if adjustedRoll > rd 0.8 then ''uncommon''
          else ''common'', seed'))"

section \<open>The schema (shared/schema.ts)\<close>

text \<open>
  The rows of the tables \<^verbatim>\<open>game_states\<close>, \<^verbatim>\<open>fragments\<close> and
  \<^verbatim>\<open>marketplace_listings\<close>. The \<^verbatim>\<open>jsonb\<close> column \<^verbatim>\<open>baseStats\<close> holds an object
  from stat names to numbers, kept here as the list of its entries in key order;
  \<^verbatim>\<open>implicitMods\<close> and \<^verbatim>\<open>affixes\<close> hold arrays of objects. Timestamps are
  milliseconds. Field names shared by two rows carry the row's initial.
\<close>

record GameState =
  g_id :: string
  userId :: string
  flux :: int
  totalSpins :: int
  deviceLevel :: int
  spinSpeedLevel :: int
  rarityOddsLevel :: int
  fluxCostLevel :: int
  mutationSlotsLevel :: int
  g_createdAt :: int
  g_updatedAt :: int

record Mod =
  m_name :: string
  m_value :: real

record Affix =
  a_name :: string
  a_value :: real
  a_source :: string

record Fragment =
  f_id :: string
  gameStateId :: string
  f_name :: string
  f_type :: string
  f_rarity :: string
  baseStats :: "(string \<times> real) list"
  implicitMods :: "Mod list"
  affixes :: "Affix list"
  isCorrupted :: bool
  quantity :: int
  f_createdAt :: int

record MarketplaceListing =
  l_id :: string
  fragmentType :: string
  l_rarity :: string
  basePrice :: int
  currentPrice :: int
  demand :: real
  l_supply :: int
  priceHistory :: "int list"
  l_updatedAt :: int

section \<open>Game logic (server/gameLogic.ts, client/src/lib/gameLogic.ts)\<close>

definition orElse :: "(string \<times> real) list \<Rightarrow> string \<Rightarrow> real \<Rightarrow> real" where
  \<comment> \<open>\<^verbatim>\<open>table[key] || d\<close> on an object literal with the listed own properties; the keys
      looked up are rarities and upgrade types, none of which names an inherited property\<close>
  "orElse table key d =
     (case map_of table key of
        None \<Rightarrow> d
      | Some v \<Rightarrow> (if v = 0 then d else v))"

definition Math_pow :: "real \<Rightarrow> int \<Rightarrow> real" where
  "Math_pow b n = (if 0 \<le> n then b ^ nat n else 1 / b ^ nat (- n))"

definition shatterMultipliers :: "(string \<times> real) list" where
  "shatterMultipliers =
     [(''common'', 1), (''uncommon'', 3), (''rare'', 8), (''epic'', 20),
      (''legendary'', 50), (''mythic'', 125), (''void_touched'', 300)]"

definition calculateShatterValue :: "Fragment \<Rightarrow> int" where
  "calculateShatterValue fragment =
     (let baseValue = 5;
          multiplier = orElse shatterMultipliers (f_rarity fragment) 1
      in \<lfloor>baseValue * multiplier * real_of_int (quantity fragment)\<rfloor>)"

definition baseCosts :: "(string \<times> real) list" where
  "baseCosts =
     [(''spinSpeed'', 500), (''rarityOdds'', 1200), (''fluxCost'', 800),
      (''mutationSlots'', 2500)]"

definition calculateDeviceUpgradeCost :: "GameState \<Rightarrow> string \<Rightarrow> int" where
  "calculateDeviceUpgradeCost gameState upgradeType =
     (let currentLevel =
            (if upgradeType = ''spinSpeed'' then spinSpeedLevel gameState
             else if upgradeType = ''rarityOdds'' then rarityOddsLevel gameState
             else if upgradeType = ''fluxCost'' then fluxCostLevel gameState
             else if upgradeType = ''mutationSlots'' then mutationSlotsLevel gameState
             else 1);
          baseCost = orElse baseCosts upgradeType 500
      in \<lfloor>baseCost * Math_pow 1.5 (currentLevel - 1)\<rfloor>)"

record DeviceStats =
  spinSpeed :: real
  rarityBonus :: real
  fluxCostReduction :: int
  mutationSlots :: int

definition getDeviceStats :: "GameState \<Rightarrow> DeviceStats" where
  \<comment> \<open>server/gameLogic.ts\<close>
  "getDeviceStats gameState =
     \<lparr>spinSpeed = 1 + real_of_int (spinSpeedLevel gameState - 1) * 0.2,
      rarityBonus = real_of_int (rarityOddsLevel gameState - 1) * 0.0005,
      fluxCostReduction = (fluxCostLevel gameState - 1) * 5,
      mutationSlots = 2 + mutationSlotsLevel gameState\<rparr>"

record ClientDeviceStats =
  c_spinSpeed :: real
  c_rarityBonus :: real
  c_fluxCost :: int
  c_mutationSlots :: int

definition getDeviceStats_client :: "GameState \<Rightarrow> ClientDeviceStats" where
  \<comment> \<open>client/src/lib/gameLogic.ts\<close>
  "getDeviceStats_client gameState =
     \<lparr>c_spinSpeed = 1 + real_of_int (spinSpeedLevel gameState - 1) * 0.2,
      c_rarityBonus = real_of_int (rarityOddsLevel gameState - 1) * 0.05,
      c_fluxCost = max (25 - (fluxCostLevel gameState - 1) * 5) 5,
      c_mutationSlots = 2 + mutationSlotsLevel gameState\<rparr>"

definition raritySuccessRates :: "(string \<times> real) list" where
  "raritySuccessRates =
     [(''common'', rd 0.85), (''uncommon'', rd 0.75), (''rare'', rd 0.65),
      (''epic'', rd 0.50), (''legendary'', rd 0.35), (''mythic'', rd 0.20),
      (''void_touched'', rd 0.10)]"

definition calculateMutationSuccessRate :: "Fragment \<Rightarrow> Fragment list \<Rightarrow> GameState \<Rightarrow> real" where
  "calculateMutationSuccessRate baseFragment components gameState =
     (let baseRate = orElse raritySuccessRates (f_rarity baseFragment) (rd 0.5);
          complexityPenalty = rd ((real (length components) - 1) * rd 0.1);
          baseRate' = max (rd (baseRate - complexityPenalty)) (rd 0.05);
          deviceBonus = rd (real_of_int (mutationSlotsLevel gameState - 1) * rd 0.05)
      in min (rd (baseRate' + deviceBonus)) (rd 0.95))"

definition costMultipliers :: "(string \<times> real) list" where
  "costMultipliers =
     [(''common'', 1), (''uncommon'', 2), (''rare'', 4), (''epic'', 8),
      (''legendary'', 16), (''mythic'', 32), (''void_touched'', 64)]"

definition calculateMutationCost :: "Fragment \<Rightarrow> Fragment list \<Rightarrow> int" where
  "calculateMutationCost baseFragment components =
     (let baseCost = 100;
          totalCost = baseCost;
          totalCost' = totalCost + baseCost * orElse costMultipliers (f_rarity baseFragment) 1;
          totalCost'' =
            foldl (\<lambda>total component.
                     total + baseCost * 0.5 * orElse costMultipliers (f_rarity component) 1)
              totalCost' components
      in \<lfloor>totalCost''\<rfloor>)"

subsection \<open>performMutation\<close>

definition rarityOrder :: "string list" where
  "rarityOrder =
     [''common'', ''uncommon'', ''rare'', ''epic'', ''legendary'', ''mythic'', ''void_touched'']"

fun indexOf :: "'a list \<Rightarrow> 'a \<Rightarrow> int" where
  "indexOf [] x = - 1"
| "indexOf (y # ys) x =
     (if y = x then 0 else (let i = indexOf ys x in if i < 0 then - 1 else i + 1))"

definition hasKey :: "string \<Rightarrow> (string \<times> real) list \<Rightarrow> bool" where
  \<comment> \<open>\<^verbatim>\<open>stat in obj\<close>, for own properties\<close>
  "hasKey stat obj = (map_of obj stat \<noteq> None)"

definition addTo :: "string \<Rightarrow> real \<Rightarrow> (string \<times> real) list \<Rightarrow> (string \<times> real) list" where
  \<comment> \<open>\<^verbatim>\<open>obj[stat] += d\<close> on a property that is present\<close>
  "addTo stat d obj = map (\<lambda>(k, v). if k = stat then (k, rd (v + d)) else (k, v)) obj"

definition enhanceStat :: "Fragment \<Rightarrow> Fragment \<Rightarrow> string \<Rightarrow> Fragment" where
  \<comment> \<open>the body of the loop over \<^verbatim>\<open>Object.keys(component.baseStats)\<close>\<close>
  "enhanceStat component mutatedFragment stat =
     (if hasKey stat (baseStats mutatedFragment) then
        (case map_of (baseStats component) stat of
           None \<Rightarrow> mutatedFragment \<comment> \<open>not reached: \<open>stat\<close> is one of the keys of this object\<close>
         | Some v \<Rightarrow>
             mutatedFragment\<lparr>baseStats :=
               addTo stat (real_of_int \<lfloor>rd (v * rd 0.5)\<rfloor>) (baseStats mutatedFragment)\<rparr>)
      else mutatedFragment)"

definition pushAffix :: "string \<Rightarrow> (real \<Rightarrow> real) \<Rightarrow> Fragment \<Rightarrow> Mod \<Rightarrow> Fragment" where
  \<comment> \<open>\<^verbatim>\<open>mutatedFragment.affixes.push({name, value, source})\<close>\<close>
  "pushAffix componentName scale mutatedFragment md =
     mutatedFragment\<lparr>affixes := affixes mutatedFragment @
       [\<lparr>a_name = componentName @ '' - '' @ m_name md,
         a_value = scale (m_value md),
         a_source = ''mutation''\<rparr>]\<rparr>"

definition applyComponent :: "Fragment \<Rightarrow> Fragment \<Rightarrow> Fragment" where
  \<comment> \<open>the body of \<^verbatim>\<open>components.forEach\<close>\<close>
  "applyComponent mutatedFragment component =
     (if f_type component = ''component'' then
        (let enhanced = foldl (enhanceStat component) mutatedFragment
                          (map fst (baseStats component))
         in foldl (pushAffix (f_name component) (\<lambda>v. real_of_int \<lfloor>rd (v * rd 0.7)\<rfloor>))
              enhanced (implicitMods component))
      else if f_type component = ''modifier'' then
        foldl (pushAffix (f_name component) (\<lambda>v. v)) mutatedFragment (implicitMods component)
      else mutatedFragment)"

definition performMutation :: "Fragment \<Rightarrow> Fragment list \<Rightarrow> GameState \<Rightarrow> int \<Rightarrow> Fragment" where
  \<comment> \<open>\<open>now\<close> is the clock reading that seeds \<^verbatim>\<open>new VoidRNG()\<close>\<close>
  "performMutation baseFragment components gameState now =
     (let mutationRng = VoidRNG_new None now;
          mutatedFragment = baseFragment
            \<lparr>f_id := [],
             f_name := ''Mutated '' @ f_name baseFragment,
             affixes := affixes baseFragment,
             baseStats := baseStats baseFragment,
             implicitMods := implicitMods baseFragment\<rparr>;
          mutatedFragment' = foldl applyComponent mutatedFragment components;
          (r, mutationRng') = random 0 1 mutationRng
      in if r < rd 0.1 then
           (let currentIndex = indexOf rarityOrder (f_rarity mutatedFragment')
            in if 0 \<le> currentIndex \<and> currentIndex < int (length rarityOrder) - 1
               then mutatedFragment'
                      \<lparr>f_rarity := rarityOrder ! nat (currentIndex + 1),
                       f_name := ''Evolved '' @ f_name mutatedFragment'\<rparr>
               else mutatedFragment')
         else mutatedFragment')"

section \<open>Storage (server/storage.ts)\<close>

text \<open>
  The routes run on \<^verbatim>\<open>DatabaseStorage\<close>. Its tables are lists of rows; a select with a
  \<^verbatim>\<open>where\<close> clause is a \<open>filter\<close>, the destructured first row of a select is a
  \<open>find\<close>, an update rewrites every matching row and a delete removes every matching
  row. Identifiers come from \<^verbatim>\<open>gen_random_uuid()\<close> and timestamps from the clock; both
  are arguments. The table \<^verbatim>\<open>users\<close> is written by one route and read by none of the
  routes below; it is left out.
\<close>

record Storage =
  gameStates :: "GameState list"
  fragments :: "Fragment list"
  marketplaceListings :: "MarketplaceListing list"

record InsertGameState =
  ig_userId :: string
  ig_flux :: int
  ig_totalSpins :: int
  ig_deviceLevel :: int
  ig_spinSpeedLevel :: int
  ig_rarityOddsLevel :: int
  ig_fluxCostLevel :: int
  ig_mutationSlotsLevel :: int

record InsertFragment =
  if_gameStateId :: string
  if_name :: string
  if_type :: string
  if_rarity :: string
  if_baseStats :: "(string \<times> real) list"
  if_implicitMods :: "Mod list"
  if_affixes :: "Affix list"
  if_isCorrupted :: bool
  if_quantity :: int

definition baseListings :: "(string \<times> string \<times> int \<times> real) list" where
  "baseListings =
     [(''component'', ''common'', 10, 1.0),
      (''component'', ''uncommon'', 50, 1.1),
      (''component'', ''rare'', 200, 1.2),
      (''component'', ''epic'', 800, 1.5),
      (''component'', ''legendary'', 3000, 2.0),
      (''modifier'', ''common'', 15, 0.9),
      (''modifier'', ''uncommon'', 75, 1.0),
      (''modifier'', ''rare'', 300, 1.3),
      (''modifier'', ''epic'', 1200, 1.8),
      (''base_item'', ''rare'', 500, 1.1),
      (''base_item'', ''epic'', 2000, 1.4)]"

definition initializeMarketplace :: "int \<Rightarrow> MarketplaceListing list" where
  "initializeMarketplace now =
     map (\<lambda>(ftype, rarity, price, dem).
            \<lparr>l_id = ftype @ ''-'' @ rarity,
             fragmentType = ftype,
             l_rarity = rarity,
             basePrice = price,
             currentPrice = price,
             demand = dem,
             l_supply = 100,
             priceHistory = [],
             l_updatedAt = now\<rparr>)
       baseListings"

definition initialStorage :: "int \<Rightarrow> Storage" where
  \<comment> \<open>the empty database after the constructor of \<^verbatim>\<open>DatabaseStorage\<close> has run\<close>
  "initialStorage now =
     \<lparr>gameStates = [], fragments = [], marketplaceListings = initializeMarketplace now\<rparr>"

definition getGameState :: "Storage \<Rightarrow> string \<Rightarrow> GameState option" where
  "getGameState st uid = find (\<lambda>g. userId g = uid) (gameStates st)"

definition createGameState :: "Storage \<Rightarrow> InsertGameState \<Rightarrow> string \<Rightarrow> int \<Rightarrow> GameState \<times> Storage" where
  "createGameState st ins newId now =
     (let gameState =
            \<lparr>g_id = newId,
             userId = ig_userId ins,
             flux = ig_flux ins,
             totalSpins = ig_totalSpins ins,
             deviceLevel = ig_deviceLevel ins,
             spinSpeedLevel = ig_spinSpeedLevel ins,
             rarityOddsLevel = ig_rarityOddsLevel ins,
             fluxCostLevel = ig_fluxCostLevel ins,
             mutationSlotsLevel = ig_mutationSlotsLevel ins,
             g_createdAt = now,
             g_updatedAt = now\<rparr>
      in (gameState, st\<lparr>gameStates := gameStates st @ [gameState]\<rparr>))"

definition updateGameState ::
  "Storage \<Rightarrow> string \<Rightarrow> (GameState \<Rightarrow> GameState) \<Rightarrow> int \<Rightarrow> (GameState \<times> Storage) option" where
  \<comment> \<open>\<open>None\<close>: no row matched, \<^verbatim>\<open>throw new Error('Game state not found')\<close>\<close>
  "updateGameState st uid updates now =
     (let rows = map (\<lambda>g. if userId g = uid then (updates g)\<lparr>g_updatedAt := now\<rparr> else g)
                   (gameStates st)
      in case find (\<lambda>g. userId g = uid) rows of
           None \<Rightarrow> None
         | Some gameState \<Rightarrow> Some (gameState, st\<lparr>gameStates := rows\<rparr>))"

definition getFragments :: "Storage \<Rightarrow> string \<Rightarrow> Fragment list" where
  "getFragments st gid = filter (\<lambda>f. gameStateId f = gid) (fragments st)"

definition createFragment :: "Storage \<Rightarrow> InsertFragment \<Rightarrow> string \<Rightarrow> int \<Rightarrow> Fragment \<times> Storage" where
  "createFragment st ins newId now =
     (let fragment =
            \<lparr>f_id = newId,
             gameStateId = if_gameStateId ins,
             f_name = if_name ins,
             f_type = if_type ins,
             f_rarity = if_rarity ins,
             baseStats = if_baseStats ins,
             implicitMods = if_implicitMods ins,
             affixes = if_affixes ins,
             isCorrupted = if_isCorrupted ins,
             quantity = if_quantity ins,
             f_createdAt = now\<rparr>
      in (fragment, st\<lparr>fragments := fragments st @ [fragment]\<rparr>))"

definition deleteFragment :: "Storage \<Rightarrow> string \<Rightarrow> Storage" where
  "deleteFragment st fragmentId =
     st\<lparr>fragments := filter (\<lambda>f. f_id f \<noteq> fragmentId) (fragments st)\<rparr>"

definition getMarketplaceListings :: "Storage \<Rightarrow> MarketplaceListing list" where
  "getMarketplaceListings st = marketplaceListings st"

definition updateMarketplaceListing ::
  "Storage \<Rightarrow> string \<Rightarrow> string \<Rightarrow> (MarketplaceListing \<Rightarrow> MarketplaceListing) \<Rightarrow> int
     \<Rightarrow> (MarketplaceListing \<times> Storage) option" where
  \<comment> \<open>\<open>None\<close>: no row matched, \<^verbatim>\<open>throw new Error('Marketplace listing not found')\<close>\<close>
  "updateMarketplaceListing st ftype rarity updates now =
     (let lid = ftype @ ''-'' @ rarity;
          rows = map (\<lambda>l. if l_id l = lid then (updates l)\<lparr>l_updatedAt := now\<rparr> else l)
                   (marketplaceListings st)
      in case find (\<lambda>l. l_id l = lid) rows of
           None \<Rightarrow> None
         | Some listing \<Rightarrow> Some (listing, st\<lparr>marketplaceListings := rows\<rparr>))"

section \<open>Routes (server/routes.ts)\<close>

text \<open>
  A handler takes the storage, the user id of the session, the parameters of the request
  and what the request reads from outside: \<open>mathRandom\<close> is the value of
  \<^verbatim>\<open>Math.random()\<close>, \<open>dateNow k\<close> the \<open>k\<close>-th reading of the clock and
  \<open>randomUUID k\<close> the \<open>k\<close>-th identifier handed out while the request runs. It returns
  the response and the storage it leaves. \<open>Status c m\<close> is
  \<^verbatim>\<open>res.status(c).json({ message: m })\<close>.
\<close>

record Env =
  mathRandom :: real
  dateNow :: "nat \<Rightarrow> int"
  randomUUID :: "nat \<Rightarrow> string"

datatype Response =
  Status nat string
| GameStateJson GameState
| SpinJson Fragment int
| FluxGainedJson int
| MutationJson bool "Fragment option" "string list" int int

definition falsy :: "string option \<Rightarrow> bool" where
  \<comment> \<open>\<^verbatim>\<open>!s\<close> for a string that may be undefined\<close>
  "falsy s = (case s of None \<Rightarrow> True | Some v \<Rightarrow> v = [])"

definition Math_round :: "real \<Rightarrow> int" where
  "Math_round x = \<lfloor>x + 1 / 2\<rfloor>"

definition gamestate :: "Storage \<Rightarrow> string option \<Rightarrow> Env \<Rightarrow> Response \<times> Storage" where
  \<comment> \<open>GET /api/gamestate; a session without a user id gets the id of a new anonymous user\<close>
  "gamestate st session env =
     (let uid = (if falsy session then randomUUID env 0 else the session)
      in case getGameState st uid of
           Some gameState \<Rightarrow> (GameStateJson gameState, st)
         | None \<Rightarrow>
             (let (gameState, st') =
                    createGameState st
                      \<lparr>ig_userId = uid, ig_flux = 1000, ig_totalSpins = 0, ig_deviceLevel = 1,
                       ig_spinSpeedLevel = 1, ig_rarityOddsLevel = 1, ig_fluxCostLevel = 1,
                       ig_mutationSlotsLevel = 1\<rparr>
                      (randomUUID env 1) (dateNow env 0)
              in (GameStateJson gameState, st')))"

record FragmentDraft =
  d_name :: string
  d_type :: string
  d_rarity :: string
  d_baseStats :: "(string \<times> real) list"
  d_implicitMods :: "Mod list"

definition spin :: "Storage \<Rightarrow> string option \<Rightarrow> FragmentDraft \<Rightarrow> Env \<Rightarrow> Response \<times> Storage" where
  \<comment> \<open>POST /api/spin; \<open>fragment\<close> is what \<^verbatim>\<open>generateFragment(gameState)\<close> returned, of
      which the handler reads name, type, rarity, baseStats and implicitMods\<close>
  "spin st session fragment env =
     (if falsy session then (Status 401 ''Unauthorized'', st)
      else case getGameState st (the session) of
        None \<Rightarrow> (Status 404 ''Game state not found'', st)
      | Some gameState \<Rightarrow>
          (let spinCost = max (25 - (fluxCostLevel gameState - 1) * 5) 5
           in if flux gameState < spinCost then (Status 400 ''Insufficient flux'', st)
              else
                (let (createdFragment, st1) =
                       createFragment st
                         \<lparr>if_gameStateId = g_id gameState,
                          if_name = d_name fragment,
                          if_type = d_type fragment,
                          if_rarity = d_rarity fragment,
                          if_baseStats = d_baseStats fragment,
                          if_implicitMods = d_implicitMods fragment,
                          if_affixes = [],
                          if_isCorrupted = False,
                          if_quantity = 1\<rparr>
                         (randomUUID env 0) (dateNow env 0)
                 in case updateGameState st1 (the session)
                           (\<lambda>g. g\<lparr>flux := flux gameState - spinCost,
                                  totalSpins := totalSpins gameState + 1\<rparr>)
                           (dateNow env 1) of
                      None \<Rightarrow> (Status 500 ''Failed to perform spin'', st1)
                    | Some (updated, st2) \<Rightarrow> (SpinJson createdFragment spinCost, st2))))"

definition shatter :: "Storage \<Rightarrow> string option \<Rightarrow> string \<Rightarrow> Env \<Rightarrow> Response \<times> Storage" where
  \<comment> \<open>POST /api/fragments/:id/shatter\<close>
  "shatter st session fragmentId env =
     (if falsy session then (Status 401 ''Unauthorized'', st)
      else case getGameState st (the session) of
        None \<Rightarrow> (Status 404 ''Game state not found'', st)
      | Some gameState \<Rightarrow>
          (case find (\<lambda>f. f_id f = fragmentId) (getFragments st (g_id gameState)) of
             None \<Rightarrow> (Status 404 ''Fragment not found'', st)
           | Some fragment \<Rightarrow>
               (let fluxGained = calculateShatterValue fragment
                in case updateGameState st (the session)
                          (\<lambda>g. g\<lparr>flux := flux gameState + fluxGained\<rparr>) (dateNow env 0) of
                     None \<Rightarrow> (Status 500 ''Failed to shatter fragment'', st)
                   | Some (updated, st1) \<Rightarrow>
                       (FluxGainedJson fluxGained, deleteFragment st1 (f_id fragment)))))"

definition sell :: "Storage \<Rightarrow> string option \<Rightarrow> string option \<Rightarrow> Env \<Rightarrow> Response \<times> Storage" where
  \<comment> \<open>POST /api/sell; a failure of the listing update is caught and only logged\<close>
  "sell st session fragmentId env =
     (if falsy session then (Status 401 ''Unauthorized'', st)
      else if falsy fragmentId then (Status 400 ''Missing fragmentId'', st)
      else case getGameState st (the session) of
        None \<Rightarrow> (Status 404 ''Game state not found'', st)
      | Some gameState \<Rightarrow>
          (case find (\<lambda>f. f_id f = the fragmentId) (getFragments st (g_id gameState)) of
             None \<Rightarrow> (Status 404 ''Fragment not found'', st)
           | Some fragment \<Rightarrow>
               (let listings = getMarketplaceListings st;
                    listingId = f_type fragment @ ''-'' @ f_rarity fragment;
                    listing = find (\<lambda>l. l_id l = listingId) listings;
                    basePrice = (case listing of Some l \<Rightarrow> currentPrice l | None \<Rightarrow> 10);
                    qty = quantity fragment;
                    price = max 1 (Math_round (real_of_int (basePrice * qty)))
                in case updateGameState st (the session)
                          (\<lambda>g. g\<lparr>flux := flux gameState + price\<rparr>) (dateNow env 0) of
                     None \<Rightarrow> (Status 500 ''Failed to sell fragment'', st)
                   | Some (updated, st1) \<Rightarrow>
                       (let st2 = deleteFragment st1 (f_id fragment);
                            st3 =
                              (case listing of
                                 None \<Rightarrow> st2
                               | Some l \<Rightarrow>
                                   (let newSupply = max 0 (l_supply l - 1);
                                        newDemand = min 3 (demand l + 0.01);
                                        newPrice =
                                          max 1 (Math_round (real_of_int (currentPrice l)
                                                   * (1 + (0.01 * (1 - newDemand)))))
                                    in case updateMarketplaceListing st2 (fragmentType l)
                                              (l_rarity l)
                                              (\<lambda>r. r\<lparr>l_supply := newSupply, demand := newDemand,
                                                     currentPrice := newPrice\<rparr>)
                                              (dateNow env 1) of
                                         None \<Rightarrow> st2
                                       | Some (updatedListing, st') \<Rightarrow> st'))
                        in (FluxGainedJson price, st3)))))"

definition upgrade :: "Storage \<Rightarrow> string option \<Rightarrow> string \<Rightarrow> Env \<Rightarrow> Response \<times> Storage" where
  \<comment> \<open>POST /api/upgrade/:type\<close>
  "upgrade st session upgradeType env =
     (if falsy session then (Status 401 ''Unauthorized'', st)
      else case getGameState st (the session) of
        None \<Rightarrow> (Status 404 ''Game state not found'', st)
      | Some gameState \<Rightarrow>
          (let cost = calculateDeviceUpgradeCost gameState upgradeType
           in if flux gameState < cost then (Status 400 ''Insufficient flux'', st)
              else
                (let updates =
                       (if upgradeType = ''spinSpeed'' then
                          Some (\<lambda>g. g\<lparr>flux := flux gameState - cost,
                                       spinSpeedLevel := spinSpeedLevel gameState + 1\<rparr>)
                        else if upgradeType = ''rarityOdds'' then
                          Some (\<lambda>g. g\<lparr>flux := flux gameState - cost,
                                       rarityOddsLevel := rarityOddsLevel gameState + 1\<rparr>)
                        else if upgradeType = ''fluxCost'' then
                          Some (\<lambda>g. g\<lparr>flux := flux gameState - cost,
                                       fluxCostLevel := fluxCostLevel gameState + 1\<rparr>)
                        else if upgradeType = ''mutationSlots'' then
                          Some (\<lambda>g. g\<lparr>flux := flux gameState - cost,
                                       mutationSlotsLevel := mutationSlotsLevel gameState + 1\<rparr>)
                        else None)
                 in case updates of
                      None \<Rightarrow> (Status 400 ''Invalid upgrade type'', st)
                    | Some u \<Rightarrow>
                        (case updateGameState st (the session) u (dateNow env 0) of
                           None \<Rightarrow> (Status 500 ''Failed to upgrade device'', st)
                         | Some (updatedGameState, st1) \<Rightarrow>
                             (GameStateJson updatedGameState, st1)))))"

record MutationRequest =
  baseFragmentId :: "string option"
  componentFragmentIds :: "string list option"

definition mutate :: "Storage \<Rightarrow> string option \<Rightarrow> MutationRequest \<Rightarrow> Env \<Rightarrow> Response \<times> Storage" where
  \<comment> \<open>POST /api/mutate\<close>
  "mutate st session body env =
     (if falsy session then (Status 401 ''Unauthorized'', st)
      else case getGameState st (the session) of
        None \<Rightarrow> (Status 404 ''Game state not found'', st)
      | Some gameState \<Rightarrow>
          if falsy (baseFragmentId body) \<or> componentFragmentIds body = None
             \<or> length (the (componentFragmentIds body)) = 0
          then (Status 400 ''Invalid mutation request'', st)
          else
            (let base = the (baseFragmentId body);
                 ids = the (componentFragmentIds body);
                 frags = getFragments st (g_id gameState)
             in case find (\<lambda>f. f_id f = base) frags of
                  None \<Rightarrow> (Status 404 ''Base fragment not found'', st)
                | Some baseFragment \<Rightarrow>
                    if f_type baseFragment \<noteq> ''base_item''
                    then (Status 400 ''Base fragment must be a base item'', st)
                    else
                      (let componentFragments =
                             List.map_filter (\<lambda>i. find (\<lambda>f. f_id f = i) frags) ids
                       in if length componentFragments \<noteq> length ids
                          then (Status 404 ''One or more component fragments not found'', st)
                          else
                            (let invalidComponents =
                                   filter (\<lambda>f. f_type f \<noteq> ''component'' \<and> f_type f \<noteq> ''modifier'')
                                     componentFragments
                             in if length invalidComponents > 0
                                then (Status 400
                                        (''Components must be of type 'component' or 'modifier''
                                         @ [CHR 0x27]), st)
                                else
                                  (let maxSlots = 2 + mutationSlotsLevel gameState
                                   in if int (length componentFragments) > maxSlots
                                      then (Status 400
                                              (''Too many components. Maximum is ''
                                               @ showInt maxSlots), st)
                                      else
                                        (let fluxCost =
                                               calculateMutationCost baseFragment componentFragments;
                                             successRate =
                                               calculateMutationSuccessRate baseFragment
                                                 componentFragments gameState
                                         in if flux gameState < fluxCost
                                            then (Status 400 ''Insufficient flux'', st)
                                            else
                                              (let mutationRng = mathRandom env;
                                                   success = (mutationRng < successRate)
                                               in case updateGameState st (the session)
                                                         (\<lambda>g. g\<lparr>flux := flux gameState - fluxCost\<rparr>)
                                                         (dateNow env 0) of
                                                    None \<Rightarrow>
                                                      (Status 500 ''Failed to perform mutation'', st)
                                                  | Some (updated, st1) \<Rightarrow>
                                                      (let consumedFragmentIds = base # ids;
                                                           st2 = foldl deleteFragment st1
                                                                   consumedFragmentIds
                                                       in if success then
                                                            (let mutatedFragment =
                                                                   performMutation baseFragment
                                                                     componentFragments gameState
                                                                     (dateNow env 1);
                                                                 (createdFragment, st3) =
                                                                   createFragment st2
                                                                     \<lparr>if_gameStateId = g_id gameState,
                                                                      if_name = f_name mutatedFragment,
                                                                      if_type = f_type mutatedFragment,
                                                                      if_rarity = f_rarity mutatedFragment,
                                                                      if_baseStats = baseStats mutatedFragment,
                                                                      if_implicitMods = implicitMods mutatedFragment,
                                                                      if_affixes = affixes mutatedFragment,
                                                                      if_isCorrupted = isCorrupted mutatedFragment,
                                                                      if_quantity = quantity mutatedFragment\<rparr>
                                                                     (randomUUID env 0) (dateNow env 2)
                                                             in (MutationJson True (Some createdFragment)
                                                                   consumedFragmentIds fluxCost
                                                                   (Math_round (successRate * 100)),
                                                                 st3))
                                                          else
                                                            (MutationJson False None
                                                               consumedFragmentIds fluxCost
                                                               (Math_round (successRate * 100)),
                                                             st2)))))))))"

section \<open>performMutation on the object graph\<close>

text \<open>
  To say which objects \<^verbatim>\<open>performMutation\<close> writes, the same function is given once more
  over a store. A fragment is an object whose \<^verbatim>\<open>baseStats\<close>, \<^verbatim>\<open>implicitMods\<close> and
  \<^verbatim>\<open>affixes\<close> fields hold references; the store is the list of the objects allocated so
  far, a reference is an index into it, and a new object goes to the end. The spreads
  \<^verbatim>\<open>[...baseFragment.affixes]\<close>, \<^verbatim>\<open>{ ...baseFragment.baseStats }\<close> and
  \<^verbatim>\<open>[...baseFragment.implicitMods]\<close> allocate; \<^verbatim>\<open>+=\<close> on a stat, \<^verbatim>\<open>push\<close> and the
  assignments to \<^verbatim>\<open>rarity\<close> and \<^verbatim>\<open>name\<close> write to the object the reference on their
  left points to. The elements of the two arrays are never written and are kept as
  values. Reading a reference that does not hold an object of the expected kind has no
  counterpart in the typed program and ends the run with \<open>None\<close>.
\<close>

record FragmentObject =
  o_id :: string
  o_gameStateId :: string
  o_name :: string
  o_type :: string
  o_rarity :: string
  o_baseStats :: nat
  o_implicitMods :: nat
  o_affixes :: nat
  o_isCorrupted :: bool
  o_quantity :: int
  o_createdAt :: int

datatype object =
  AFragment FragmentObject
| AStats "(string \<times> real) list"
| AMods "Mod list"
| AnAffixes "Affix list"

type_synonym store = "object list"

definition alloc :: "store \<Rightarrow> object \<Rightarrow> nat \<times> store" where
  "alloc h ob = (length h, h @ [ob])"

definition getFragment :: "store \<Rightarrow> nat \<Rightarrow> FragmentObject option" where
  "getFragment h a =
     (if a < length h then (case h ! a of AFragment f \<Rightarrow> Some f | _ \<Rightarrow> None) else None)"

definition getStats :: "store \<Rightarrow> nat \<Rightarrow> (string \<times> real) list option" where
  "getStats h a =
     (if a < length h then (case h ! a of AStats s \<Rightarrow> Some s | _ \<Rightarrow> None) else None)"

definition getMods :: "store \<Rightarrow> nat \<Rightarrow> Mod list option" where
  "getMods h a =
     (if a < length h then (case h ! a of AMods ms \<Rightarrow> Some ms | _ \<Rightarrow> None) else None)"

definition getAffixes :: "store \<Rightarrow> nat \<Rightarrow> Affix list option" where
  "getAffixes h a =
     (if a < length h then (case h ! a of AnAffixes as \<Rightarrow> Some as | _ \<Rightarrow> None) else None)"

fun forEach :: "(store \<Rightarrow> 'a \<Rightarrow> store option) \<Rightarrow> 'a list \<Rightarrow> store \<Rightarrow> store option" where
  "forEach body [] h = Some h"
| "forEach body (x # xs) h = (case body h x of None \<Rightarrow> None | Some h' \<Rightarrow> forEach body xs h')"

definition enhanceStatAt :: "nat \<Rightarrow> nat \<Rightarrow> store \<Rightarrow> string \<Rightarrow> store option" where
  \<comment> \<open>\<^verbatim>\<open>if (stat in mutatedFragment.baseStats) mutatedFragment.baseStats[stat] +=
      Math.floor(component.baseStats[stat] * 0.5)\<close>\<close>
  "enhanceStatAt mutatedFragment component h stat =
     (case getFragment h mutatedFragment of None \<Rightarrow> None | Some m \<Rightarrow>
      case getFragment h component of None \<Rightarrow> None | Some c \<Rightarrow>
      case getStats h (o_baseStats m) of None \<Rightarrow> None | Some mstats \<Rightarrow>
      case getStats h (o_baseStats c) of None \<Rightarrow> None | Some cstats \<Rightarrow>
        if hasKey stat mstats then
          (case map_of cstats stat of
             None \<Rightarrow> None \<comment> \<open>not reached: \<open>stat\<close> is one of the keys of this object\<close>
           | Some v \<Rightarrow>
               Some (h[o_baseStats m :=
                         AStats (addTo stat (real_of_int \<lfloor>rd (v * rd 0.5)\<rfloor>) mstats)]))
        else Some h)"

definition pushAffixAt :: "nat \<Rightarrow> nat \<Rightarrow> (real \<Rightarrow> real) \<Rightarrow> store \<Rightarrow> Mod \<Rightarrow> store option" where
  \<comment> \<open>\<^verbatim>\<open>mutatedFragment.affixes.push({name: `${component.name} - ${mod.name}`, value, source})\<close>\<close>
  "pushAffixAt mutatedFragment component scale h md =
     (case getFragment h mutatedFragment of None \<Rightarrow> None | Some m \<Rightarrow>
      case getFragment h component of None \<Rightarrow> None | Some c \<Rightarrow>
      case getAffixes h (o_affixes m) of None \<Rightarrow> None | Some as \<Rightarrow>
        Some (h[o_affixes m := AnAffixes (as @
                [\<lparr>a_name = o_name c @ '' - '' @ m_name md,
                  a_value = scale (m_value md),
                  a_source = ''mutation''\<rparr>])]))"

definition applyComponentAt :: "nat \<Rightarrow> store \<Rightarrow> nat \<Rightarrow> store option" where
  \<comment> \<open>the body of \<^verbatim>\<open>components.forEach\<close>; the keys and the mods are those at the start of
      the inner loops\<close>
  "applyComponentAt mutatedFragment h component =
     (case getFragment h component of None \<Rightarrow> None | Some c \<Rightarrow>
        if o_type c = ''component'' then
          (case getStats h (o_baseStats c) of None \<Rightarrow> None | Some cstats \<Rightarrow>
           case forEach (enhanceStatAt mutatedFragment component) (map fst cstats) h of
             None \<Rightarrow> None
           | Some h1 \<Rightarrow>
               (case getMods h1 (o_implicitMods c) of None \<Rightarrow> None | Some mods \<Rightarrow>
                  forEach (pushAffixAt mutatedFragment component
                             (\<lambda>v. real_of_int \<lfloor>rd (v * rd 0.7)\<rfloor>)) mods h1))
        else if o_type c = ''modifier'' then
          (case getMods h (o_implicitMods c) of None \<Rightarrow> None | Some mods \<Rightarrow>
             forEach (pushAffixAt mutatedFragment component (\<lambda>v. v)) mods h)
        else Some h)"

definition performMutationAt :: "store \<Rightarrow> nat \<Rightarrow> nat list \<Rightarrow> int \<Rightarrow> (nat \<times> store) option" where
  \<comment> \<open>the references of the base fragment and of the components in, the reference of the
      result and the store out; \<^verbatim>\<open>gameState\<close> is not read\<close>
  "performMutationAt h baseFragment components now =
     (let mutationRng = VoidRNG_new None now
      in case getFragment h baseFragment of None \<Rightarrow> None | Some b \<Rightarrow>
         case getAffixes h (o_affixes b) of None \<Rightarrow> None | Some bAffixes \<Rightarrow>
         case getStats h (o_baseStats b) of None \<Rightarrow> None | Some bStats \<Rightarrow>
         case getMods h (o_implicitMods b) of None \<Rightarrow> None | Some bMods \<Rightarrow>
           (let (affixesCopy, h1) = alloc h (AnAffixes bAffixes);
                (baseStatsCopy, h2) = alloc h1 (AStats bStats);
                (implicitModsCopy, h3) = alloc h2 (AMods bMods);
                (mutatedFragment, h4) =
                  alloc h3 (AFragment (b\<lparr>o_id := [],
                                         o_name := ''Mutated '' @ o_name b,
                                         o_affixes := affixesCopy,
                                         o_baseStats := baseStatsCopy,
                                         o_implicitMods := implicitModsCopy\<rparr>))
            in case forEach (applyComponentAt mutatedFragment) components h4 of
                 None \<Rightarrow> None
               | Some h5 \<Rightarrow>
                   (let (r, mutationRng') = random 0 1 mutationRng
                    in if r < rd 0.1 then
                         (case getFragment h5 mutatedFragment of None \<Rightarrow> None | Some m \<Rightarrow>
                            (let currentIndex = indexOf rarityOrder (o_rarity m)
                             in if 0 \<le> currentIndex
                                   \<and> currentIndex < int (length rarityOrder) - 1
                                then Some (mutatedFragment,
                                       h5[mutatedFragment := AFragment
                                            (m\<lparr>o_rarity := rarityOrder ! nat (currentIndex + 1),
                                               o_name := ''Evolved '' @ o_name m\<rparr>)])
                                else Some (mutatedFragment, h5)))
                       else Some (mutatedFragment, h5))))"

text \<open>The fragment that a reference denotes, and the store that holds a list of fragments.\<close>

definition fragmentOf ::
  "FragmentObject \<Rightarrow> (string \<times> real) list \<Rightarrow> Mod list \<Rightarrow> Affix list \<Rightarrow> Fragment" where
  "fragmentOf f stats mods as =
     \<lparr>f_id = o_id f, gameStateId = o_gameStateId f, f_name = o_name f,
      f_type = o_type f, f_rarity = o_rarity f, baseStats = stats,
      implicitMods = mods, affixes = as, isCorrupted = o_isCorrupted f,
      quantity = o_quantity f, f_createdAt = o_createdAt f\<rparr>"

definition fragmentAt :: "store \<Rightarrow> nat \<Rightarrow> Fragment option" where
  "fragmentAt h a =
     (case getFragment h a of None \<Rightarrow> None | Some f \<Rightarrow>
      case getStats h (o_baseStats f) of None \<Rightarrow> None | Some stats \<Rightarrow>
      case getMods h (o_implicitMods f) of None \<Rightarrow> None | Some mods \<Rightarrow>
      case getAffixes h (o_affixes f) of None \<Rightarrow> None | Some as \<Rightarrow>
        Some (fragmentOf f stats mods as))"

section \<open>Definitions used to state the properties\<close>

definition baseRate :: "string \<Rightarrow> real" where
  \<comment> \<open>the per-rarity table of base success rates, common first; the entries are the
      doubles that the decimals denote\<close>
  "baseRate rarity =
     (if rarity = ''common'' then rd 0.85
      else if rarity = ''uncommon'' then rd 0.75
      else if rarity = ''rare'' then rd 0.65
      else if rarity = ''epic'' then rd 0.50
      else if rarity = ''legendary'' then rd 0.35
      else if rarity = ''mythic'' then rd 0.20
      else rd 0.10)"

definition thresholds :: "(real \<times> string) list" where
  "thresholds =
     [(rd 0.999995, ''void_touched''), (rd 0.9999, ''mythic''), (rd 0.999, ''legendary''),
      (rd 0.99, ''epic''), (rd 0.95, ''rare''), (rd 0.8, ''uncommon'')]"

definition rarityLadder :: "real \<Rightarrow> string" where
  \<comment> \<open>the first threshold, highest first, that the value strictly exceeds; else common\<close>
  "rarityLadder x =
     (case find (\<lambda>(t, r). x > t) thresholds of
        Some (t, r) \<Rightarrow> r
      | None \<Rightarrow> ''common'')"

fun draws :: "nat \<Rightarrow> VoidRNG \<Rightarrow> real list" where
  "draws 0 seed = []"
| "draws (Suc n) seed = (let (r, seed') = next seed in r # draws n seed')"

definition totalWeight :: "('a \<times> real) list \<Rightarrow> real" where
  \<comment> \<open>the value of \<^verbatim>\<open>items.reduce((sum, item) => sum + item.weight, 0)\<close>\<close>
  "totalWeight items = foldl (\<lambda>sum item. rd (sum + snd item)) 0 items"

definition mutationAffixes :: "Fragment \<Rightarrow> Affix list" where
  \<comment> \<open>the affixes that one component contributes; \<open>floor (value * 0.7)\<close> is taken of the
      double product\<close>
  "mutationAffixes component =
     (if f_type component = ''component'' then
        map (\<lambda>md. \<lparr>a_name = f_name component @ '' - '' @ m_name md,
                   a_value = real_of_int \<lfloor>rd (m_value md * rd 0.7)\<rfloor>,
                   a_source = ''mutation''\<rparr>) (implicitMods component)
      else if f_type component = ''modifier'' then
        map (\<lambda>md. \<lparr>a_name = f_name component @ '' - '' @ m_name md,
                   a_value = m_value md,
                   a_source = ''mutation''\<rparr>) (implicitMods component)
      else [])"


definition gameStateOk :: "GameState \<Rightarrow> bool" where
  "gameStateOk g =
     (0 \<le> flux g \<and> 1 \<le> spinSpeedLevel g \<and> 1 \<le> rarityOddsLevel g
      \<and> 1 \<le> fluxCostLevel g \<and> 1 \<le> mutationSlotsLevel g)"

definition storageOk :: "Storage \<Rightarrow> bool" where
  \<comment> \<open>every game state is in range and every fragment has a positive quantity\<close>
  "storageOk st =
     (list_all gameStateOk (gameStates st) \<and> list_all (\<lambda>f. 1 \<le> quantity f) (fragments st))"

text \<open>
  The storages that the routes produce from a database without game states and fragments
  (with any marketplace listings, those of \<open>initialStorage\<close> among them), for any
  sessions, request parameters, generated fragments, random draws, clock readings and
  identifiers.
\<close>

inductive reachable :: "Storage \<Rightarrow> bool" where
  initial: "reachable \<lparr>gameStates = [], fragments = [], marketplaceListings = listings\<rparr>"
| gamestate: "reachable st \<Longrightarrow> reachable (snd (gamestate st session env))"
| spin: "reachable st \<Longrightarrow> reachable (snd (spin st session fragment env))"
| shatter: "reachable st \<Longrightarrow> reachable (snd (shatter st session fragmentId env))"
| sell: "reachable st \<Longrightarrow> reachable (snd (sell st session fragmentIdOpt env))"
| upgrade: "reachable st \<Longrightarrow> reachable (snd (upgrade st session upgradeType env))"
| mutate: "reachable st \<Longrightarrow> reachable (snd (mutate st session body env))"

definition wellFormed :: "store \<Rightarrow> nat \<Rightarrow> bool" where
  \<comment> \<open>the reference holds a fragment whose three fields hold objects of their kinds\<close>
  "wellFormed h a = (fragmentAt h a \<noteq> None)"

definition mutating :: "store \<Rightarrow> store \<Rightarrow> Fragment \<Rightarrow> bool" where
  \<comment> \<open>the store \<open>h\<close> during the loops of \<^verbatim>\<open>performMutation\<close> entered with the store
      \<open>h0\<close>: the old objects are as they were, and the four new ones are the copies of
      the affixes, the stats and the mods and the result, which denotes \<open>mutatedFragment\<close>\<close>
  "mutating h0 h mutatedFragment =
     (length h = length h0 + 4 \<and> take (length h0) h = h0
      \<and> (\<exists>m stats mods as.
             getFragment h (length h0 + 3) = Some m \<and> o_affixes m = length h0
             \<and> o_baseStats m = length h0 + 1 \<and> o_implicitMods m = length h0 + 2
             \<and> getAffixes h (length h0) = Some as
             \<and> getStats h (length h0 + 1) = Some stats
             \<and> getMods h (length h0 + 2) = Some mods
             \<and> mutatedFragment = fragmentOf m stats mods as))"

subsection \<open>Sample data\<close>

definition sampleGameState :: GameState where
  "sampleGameState =
     \<lparr>g_id = ''g1'', userId = ''u1'', flux = 1000, totalSpins = 0, deviceLevel = 1,
      spinSpeedLevel = 1, rarityOddsLevel = 1, fluxCostLevel = 1, mutationSlotsLevel = 1,
      g_createdAt = 0, g_updatedAt = 0\<rparr>"

definition sampleBase :: Fragment where
  "sampleBase =
     \<lparr>f_id = ''b1'', gameStateId = ''g1'', f_name = ''Sword'', f_type = ''base_item'',
      f_rarity = ''common'', baseStats = [(''power'', 12), (''defense'', 7), (''speed'', 3)],
      implicitMods = [\<lparr>m_name = ''Increased Damage'', m_value = 9\<rparr>],
      affixes = [], isCorrupted = False, quantity = 1, f_createdAt = 0\<rparr>"

definition sampleComponent :: Fragment where
  "sampleComponent =
     \<lparr>f_id = ''c1'', gameStateId = ''g1'', f_name = ''Void Iron'', f_type = ''component'',
      f_rarity = ''common'', baseStats = [(''enhancement'', 11)],
      implicitMods = [\<lparr>m_name = ''Void Affinity'', m_value = 10\<rparr>],
      affixes = [], isCorrupted = False, quantity = 1, f_createdAt = 0\<rparr>"

definition sampleHeavyComponent :: Fragment where
  \<comment> \<open>a component whose mod value 90 has the double product \<open>90 * 0.7\<close> below 63\<close>
  "sampleHeavyComponent =
     \<lparr>f_id = ''c2'', gameStateId = ''g1'', f_name = ''Essence Core'', f_type = ''component'',
      f_rarity = ''rare'', baseStats = [(''enhancement'', 40)],
      implicitMods = [\<lparr>m_name = ''Stellar Power'', m_value = 90\<rparr>],
      affixes = [], isCorrupted = False, quantity = 1, f_createdAt = 0\<rparr>"

definition sampleAffixedBase :: Fragment where
  "sampleAffixedBase =
     sampleBase\<lparr>f_name := ''Mutated Sword'',
       affixes := [\<lparr>a_name = ''Void Iron - Void Affinity'', a_value = 7, a_source = ''mutation''\<rparr>]\<rparr>"

definition sampleStorage :: Storage where
  "sampleStorage =
     \<lparr>gameStates = [sampleGameState], fragments = [sampleBase, sampleComponent],
      marketplaceListings = []\<rparr>"

definition sampleEnv :: "real \<Rightarrow> Env" where
  "sampleEnv draw = \<lparr>mathRandom = draw, dateNow = (\<lambda>k. 5), randomUUID = (\<lambda>k. ''n1'')\<rparr>"

definition sampleDraft :: FragmentDraft where
  "sampleDraft =
     \<lparr>d_name = ''Void Iron'', d_type = ''component'', d_rarity = ''common'',
      d_baseStats = [(''enhancement'', 11)],
      d_implicitMods = [\<lparr>m_name = ''Void Affinity'', m_value = 10\<rparr>]\<rparr>"

definition sampleReached :: Storage where
  \<comment> \<open>a first visit, then one spin\<close>
  "sampleReached =
     snd (spin (snd (gamestate (initialStorage 0) None (sampleEnv 0))) (Some ''n1'')
            sampleDraft (sampleEnv 0))"

definition sampleStore :: store where
  \<comment> \<open>\<open>sampleAffixedBase\<close> at reference 0 and \<open>sampleComponent\<close> at reference 4\<close>
  "sampleStore =
     [AFragment \<lparr>o_id = ''b1'', o_gameStateId = ''g1'', o_name = ''Mutated Sword'',
                 o_type = ''base_item'', o_rarity = ''common'', o_baseStats = 1,
                 o_implicitMods = 2, o_affixes = 3, o_isCorrupted = False, o_quantity = 1,
                 o_createdAt = 0\<rparr>,
      AStats [(''power'', 12), (''defense'', 7), (''speed'', 3)],
      AMods [\<lparr>m_name = ''Increased Damage'', m_value = 9\<rparr>],
      AnAffixes [\<lparr>a_name = ''Void Iron - Void Affinity'', a_value = 7, a_source = ''mutation''\<rparr>],
      AFragment \<lparr>o_id = ''c1'', o_gameStateId = ''g1'', o_name = ''Void Iron'',
                 o_type = ''component'', o_rarity = ''common'', o_baseStats = 5,
                 o_implicitMods = 6, o_affixes = 7, o_isCorrupted = False, o_quantity = 1,
                 o_createdAt = 0\<rparr>,
      AStats [(''enhancement'', 11)],
      AMods [\<lparr>m_name = ''Void Affinity'', m_value = 10\<rparr>],
      AnAffixes []]"

section \<open>Rounding to a double\<close>

lemmas rd_eval = rd_def ulp_def expo_def bitlen.simps pow2_def roundEven_def Let_def

lemma pow2_powr: "pow2 e = 2 powr real_of_int e"
proof (cases "0 \<le> e")
  case True
  have "2 powr real_of_int e = 2 powr real (nat e)" using True by simp
  also have "\<dots> = 2 ^ nat e" by (simp add: powr_realpow)
  finally show ?thesis using True by (simp add: pow2_def)
next
  case False
  then have "real_of_int e = - real (nat (- e))" by simp
  then have "2 powr real_of_int e = inverse (2 powr real (nat (- e)))"
    by (simp only: powr_minus)
  also have "\<dots> = inverse (2 ^ nat (- e))" by (simp add: powr_realpow)
  finally show ?thesis using False by (simp add: pow2_def divide_inverse)
qed

lemma pow2_pos [simp]: "0 < pow2 e"
  by (simp add: pow2_powr)

lemma pow2_nonneg [simp]: "0 \<le> pow2 e"
  by (simp add: pow2_powr)

lemma pow2_neq_0 [simp]: "pow2 e \<noteq> 0"
  by (simp add: pow2_powr)

lemma pow2_add: "pow2 (a + b) = pow2 a * pow2 b"
  by (simp add: pow2_powr powr_add)

lemma pow2_less_iff [simp]: "pow2 a < pow2 b \<longleftrightarrow> a < b"
  by (simp add: pow2_powr)

lemma pow2_le_iff [simp]: "pow2 a \<le> pow2 b \<longleftrightarrow> a \<le> b"
  by (simp add: pow2_powr)

lemma pow2_nat: "pow2 (int k) = 2 ^ k"
  by (simp add: pow2_def)

lemma pow2_split: "a \<le> b \<Longrightarrow> pow2 b = of_int (2 ^ nat (b - a)) * pow2 a"
proof -
  assume "a \<le> b"
  then have "b = int (nat (b - a)) + a" by simp
  then have "pow2 b = pow2 (int (nat (b - a))) * pow2 a" by (metis pow2_add)
  then show ?thesis by (simp only: pow2_nat) simp
qed

lemma bitlen_bounds: "0 < n \<Longrightarrow> 2 ^ (bitlen n - 1) \<le> n \<and> n < 2 ^ bitlen n"
proof (induction n rule: bitlen.induct)
  case (1 n)
  show ?case
  proof (cases "n = 1")
    case True
    then show ?thesis by (simp add: bitlen.simps)
  next
    case False
    with 1 have h: "0 < n div 2" by simp
    with 1 have ih: "2 ^ (bitlen (n div 2) - 1) \<le> n div 2" "n div 2 < 2 ^ bitlen (n div 2)"
      by auto
    have pos: "0 < bitlen (n div 2)" using h by (simp add: bitlen.simps)
    have b: "bitlen n = Suc (bitlen (n div 2))" using 1(2) by (simp add: bitlen.simps)
    have "2 ^ (bitlen n - 1) = (2::int) * 2 ^ (bitlen (n div 2) - 1)"
      using pos b by (cases "bitlen (n div 2)") auto
    also have "\<dots> \<le> 2 * (n div 2)" using ih(1) by simp
    also have "\<dots> \<le> n" by simp
    finally have lo: "2 ^ (bitlen n - 1) \<le> n" .
    have "n < 2 * (n div 2) + 2" by presburger
    also have "\<dots> \<le> 2 * 2 ^ bitlen (n div 2)" using ih(2) by simp
    finally have "n < 2 ^ bitlen n" using b by simp
    with lo show ?thesis by simp
  qed
qed

lemma expo_bounds:
  assumes "x \<noteq> 0"
  shows "pow2 (expo x) \<le> \<bar>x\<bar>" and "\<bar>x\<bar> < pow2 (expo x + 1)"
proof -
  have "pow2 (expo x) \<le> \<bar>x\<bar> \<and> \<bar>x\<bar> < pow2 (expo x + 1)"
  proof (cases "1 \<le> \<bar>x\<bar>")
    case True
    let ?n = "\<lfloor>\<bar>x\<bar>\<rfloor>"
    have n: "0 < ?n" using True by simp
    from bitlen_bounds [OF n] have b: "2 ^ (bitlen ?n - 1) \<le> ?n" "?n < 2 ^ bitlen ?n" by auto
    have pos: "0 < bitlen ?n" using n by (simp add: bitlen.simps)
    have e: "expo x = int (bitlen ?n - 1)" using True pos by (simp add: expo_def)
    have e1: "expo x + 1 = int (bitlen ?n)" using e pos by simp
    have "real_of_int (2 ^ (bitlen ?n - 1)) \<le> real_of_int ?n" using b(1) by linarith
    also have "\<dots> \<le> \<bar>x\<bar>" by simp
    finally have lo: "pow2 (expo x) \<le> \<bar>x\<bar>" unfolding e pow2_nat by simp
    have "?n + 1 \<le> 2 ^ bitlen ?n" using b(2) by simp
    then have "real_of_int (?n + 1) \<le> real_of_int (2 ^ bitlen ?n)" by linarith
    moreover have "\<bar>x\<bar> < real_of_int (?n + 1)" by linarith
    moreover have "real_of_int (2 ^ bitlen ?n) = 2 ^ bitlen ?n" by simp
    ultimately have "\<bar>x\<bar> < pow2 (expo x + 1)" unfolding e1 pow2_nat by linarith
    with lo show ?thesis by simp
  next
    case False
    let ?y = "1 / \<bar>x\<bar>"
    let ?c = "\<lceil>?y\<rceil> - 1"
    have x: "0 < \<bar>x\<bar>" "\<bar>x\<bar> < 1" using assms False by auto
    have y: "1 < ?y" using x by simp
    have c: "0 < ?c" using y by linarith
    have cy: "real_of_int ?c < ?y" "?y \<le> real_of_int ?c + 1" by linarith+
    from bitlen_bounds [OF c] have b: "2 ^ (bitlen ?c - 1) \<le> ?c" "?c < 2 ^ bitlen ?c" by auto
    have pos: "0 < bitlen ?c" using c by (simp add: bitlen.simps)
    have e: "expo x = - int (bitlen ?c)" using False by (simp add: expo_def)
    have e1: "expo x + 1 = - int (bitlen ?c - 1)" using e pos by simp
    have p: "pow2 (- int k) = 1 / 2 ^ k" for k by (cases "k = 0") (simp_all add: pow2_def)
    have "real_of_int ?c + 1 \<le> 2 ^ bitlen ?c"
    proof -
      have "?c + 1 \<le> 2 ^ bitlen ?c" using b(2) by simp
      then have "real_of_int (?c + 1) \<le> real_of_int (2 ^ bitlen ?c)" by linarith
      then show ?thesis by simp
    qed
    with cy(2) have "?y \<le> 2 ^ bitlen ?c" by linarith
    then have lo: "pow2 (expo x) \<le> \<bar>x\<bar>" unfolding e p using x(1)
      by (simp add: field_simps)
    have "(2::real) ^ (bitlen ?c - 1) \<le> real_of_int ?c"
    proof -
      have "real_of_int (2 ^ (bitlen ?c - 1)) \<le> real_of_int ?c" using b(1) by linarith
      then show ?thesis by simp
    qed
    with cy(1) have "2 ^ (bitlen ?c - 1) < ?y" by linarith
    then have "\<bar>x\<bar> < pow2 (expo x + 1)" unfolding e1 p using x(1)
      by (simp add: field_simps)
    with lo show ?thesis by simp
  qed
  then show "pow2 (expo x) \<le> \<bar>x\<bar>" and "\<bar>x\<bar> < pow2 (expo x + 1)" by auto
qed

lemma expo_le: "x \<noteq> 0 \<Longrightarrow> \<bar>x\<bar> < pow2 (k + 1) \<Longrightarrow> expo x \<le> k"
proof -
  assume "x \<noteq> 0" and "\<bar>x\<bar> < pow2 (k + 1)"
  with expo_bounds(1) [of x] have "pow2 (expo x) < pow2 (k + 1)" by linarith
  then show ?thesis by simp
qed

lemma expo_ge: "x \<noteq> 0 \<Longrightarrow> pow2 k \<le> \<bar>x\<bar> \<Longrightarrow> k \<le> expo x"
proof -
  assume "x \<noteq> 0" and "pow2 k \<le> \<bar>x\<bar>"
  with expo_bounds(2) [of x] have "pow2 k < pow2 (expo x + 1)" by linarith
  then show ?thesis by simp
qed

lemma expo_mono: "x \<noteq> 0 \<Longrightarrow> \<bar>x\<bar> \<le> \<bar>t\<bar> \<Longrightarrow> expo x \<le> expo t"
proof -
  assume x: "x \<noteq> 0" and le: "\<bar>x\<bar> \<le> \<bar>t\<bar>"
  then have t: "t \<noteq> 0" by auto
  from expo_bounds(1) [OF x] le have "pow2 (expo x) \<le> \<bar>t\<bar>" by linarith
  with t show ?thesis by (rule expo_ge)
qed

lemma roundEven_of_int [simp]: "roundEven (of_int k) = k"
  by (simp add: roundEven_def)

lemma roundEven_le: "y \<le> of_int k \<Longrightarrow> roundEven y \<le> k"
proof -
  assume y: "y \<le> of_int k"
  show ?thesis
  proof (cases "y = of_int k")
    case True
    then show ?thesis by simp
  next
    case False
    with y have "y < of_int k" by simp
    then have "\<lfloor>y\<rfloor> < k" by (simp add: floor_less_iff)
    then show ?thesis by (simp add: roundEven_def Let_def)
  qed
qed

lemma roundEven_ge: "of_int k \<le> y \<Longrightarrow> k \<le> roundEven y"
proof -
  assume "of_int k \<le> y"
  then have "k \<le> \<lfloor>y\<rfloor>" by (simp add: le_floor_iff)
  then show ?thesis by (simp add: roundEven_def Let_def)
qed

lemma ulp_pos [simp]: "0 < ulp x"
  by (simp add: ulp_def)

lemma ulp_nonneg [simp]: "0 \<le> ulp x"
  by (simp add: ulp_def)

lemma ulp_neq_0 [simp]: "ulp x \<noteq> 0"
  by (simp add: ulp_def)

lemma rd_0 [simp]: "rd 0 = 0"
  by (simp add: rd_def)

lemma rd_nonneg: "0 \<le> x \<Longrightarrow> 0 \<le> rd x"
proof -
  assume "0 \<le> x"
  then have "of_int 0 \<le> x / ulp x" using ulp_pos [of x] by simp
  then have "0 \<le> roundEven (x / ulp x)" by (rule roundEven_ge)
  then show ?thesis by (simp add: rd_def)
qed

lemma rd_nonpos: "x \<le> 0 \<Longrightarrow> rd x \<le> 0"
proof -
  assume "x \<le> 0"
  then have "x / ulp x \<le> of_int 0" by (simp add: divide_nonpos_pos)
  then have "roundEven (x / ulp x) \<le> 0" by (rule roundEven_le)
  then have "real_of_int (roundEven (x / ulp x)) \<le> 0" by simp
  then have "real_of_int (roundEven (x / ulp x)) * ulp x \<le> 0"
    using ulp_pos [of x] by (intro mult_nonpos_nonneg) simp_all
  then show ?thesis by (simp add: rd_def)
qed

lemma rd_multiple_aux:
  assumes "\<bar>n\<bar> < 2 ^ 53" and "- 1074 \<le> q"
  shows "rd (of_int n * pow2 q) = of_int n * pow2 q"
proof (cases "n = 0")
  case True
  then show ?thesis by simp
next
  case False
  define y where "y = of_int n * pow2 q"
  define qy where "qy = max (expo y) (- 1022) - 52"
  have u: "ulp y = pow2 qy" by (simp add: ulp_def qy_def)
  have y: "y \<noteq> 0" using False by (simp add: y_def)
  have "\<bar>y\<bar> = real_of_int \<bar>n\<bar> * pow2 q" by (simp add: y_def abs_mult)
  also have "\<dots> < real_of_int (2 ^ 53) * pow2 q"
    using assms(1) by (intro mult_strict_right_mono) (simp_all del: of_int_power)
  also have "\<dots> = pow2 (q + 52 + 1)"
    using pow2_add [of 53 q] pow2_nat [of 53] by (simp add: add.commute)
  finally have "expo y \<le> q + 52" using y by (intro expo_le)
  with assms(2) have "qy \<le> q" by (simp add: qy_def)
  define K where "K = n * 2 ^ nat (q - qy)"
  have "y = of_int n * (of_int (2 ^ nat (q - qy)) * pow2 qy)"
    unfolding y_def using pow2_split [OF \<open>qy \<le> q\<close>] by simp
  also have "\<dots> = of_int K * ulp y" by (simp add: K_def u)
  finally have yk: "y = of_int K * ulp y" .
  then have "y / ulp y = of_int K" by (metis nonzero_mult_div_cancel_right ulp_neq_0)
  then have "rd y = of_int K * ulp y" using y by (simp add: rd_def)
  then show ?thesis using yk by (simp add: y_def)
qed

lemma rd_multiple:
  assumes "\<bar>n\<bar> \<le> 2 ^ 53" and "- 1074 \<le> q"
  shows "rd (of_int n * pow2 q) = of_int n * pow2 q"
proof (cases "\<bar>n\<bar> < 2 ^ 53")
  case True
  then show ?thesis using assms(2) by (rule rd_multiple_aux)
next
  case False
  with assms(1) have n: "\<bar>n\<bar> = 2 ^ 53" by simp
  then have "n = 9007199254740992 \<or> n = - 9007199254740992" by (simp add: abs_if split: if_splits)
  then have "n = 2 * (n div 2)" "\<bar>n div 2\<bar> < 2 ^ 53" by auto
  moreover have "pow2 (q + 1) = 2 * pow2 q" using pow2_add [of q 1] by (simp add: pow2_def)
  ultimately have "of_int n * pow2 q = of_int (n div 2) * pow2 (q + 1)"
    by (metis mult.assoc mult.commute of_int_mult of_int_numeral)
  moreover have "rd (of_int (n div 2) * pow2 (q + 1)) = of_int (n div 2) * pow2 (q + 1)"
    using \<open>\<bar>n div 2\<bar> < 2 ^ 53\<close> assms(2) by (intro rd_multiple_aux) auto
  ultimately show ?thesis by simp
qed

lemma ulp_ge: "- 1074 \<le> max (expo x) (- 1022) - 52"
  by simp

lemma rd_repr:
  "\<exists>n. rd x = of_int n * ulp x \<and> \<bar>n\<bar> \<le> 2 ^ 53"
proof (cases "x = 0")
  case True
  then show ?thesis by (intro exI [of _ 0]) simp
next
  case False
  define q where "q = max (expo x) (- 1022) - 52"
  define K :: int where "K = 2 ^ 53"
  define y where "y = x / ulp x"
  have u: "ulp x = pow2 q" by (simp add: ulp_def q_def)
  have "\<bar>x\<bar> < pow2 (expo x + 1)" using False by (rule expo_bounds)
  also have "\<dots> \<le> pow2 (q + 53)" by (simp add: q_def)
  also have "\<dots> = of_int K * ulp x"
    using pow2_add [of 53 q] pow2_nat [of 53] by (simp add: u K_def add.commute)
  finally have "\<bar>x\<bar> / ulp x < of_int K" by (simp add: pos_divide_less_eq)
  moreover have "\<bar>y\<bar> = \<bar>x\<bar> / ulp x" by (simp add: y_def)
  ultimately have a: "\<bar>y\<bar> < of_int K" by simp
  have "y \<le> of_int K" using a by linarith
  then have hi: "roundEven y \<le> K" by (rule roundEven_le)
  have "of_int (- K) \<le> y" using a by simp
  then have lo: "- K \<le> roundEven y" by (rule roundEven_ge)
  have "rd x = of_int (roundEven y) * ulp x" using False by (simp add: rd_def y_def)
  moreover have "\<bar>roundEven y\<bar> \<le> 2 ^ 53" using hi lo unfolding K_def by linarith
  ultimately show ?thesis by blast
qed

lemma rd_idem [simp]: "rd (rd x) = rd x"
proof -
  obtain n where n: "rd x = of_int n * ulp x" "\<bar>n\<bar> \<le> 2 ^ 53" using rd_repr by blast
  show ?thesis unfolding n(1) ulp_def using n(2) ulp_ge by (rule rd_multiple)
qed

lemma rd_fixed_repr:
  assumes "rd t = t"
  shows "\<exists>n. t = of_int n * ulp t"
  using assms by (cases "t = 0") (auto simp: rd_def intro: exI [of _ 0] dest: sym)

lemma rd_le:
  assumes "0 \<le> x" and "x \<le> t" and "rd t = t"
  shows "rd x \<le> t"
proof (cases "x = 0")
  case True
  then show ?thesis using assms by simp
next
  case False
  define qx where "qx = max (expo x) (- 1022) - 52"
  define qt where "qt = max (expo t) (- 1022) - 52"
  have u: "ulp x = pow2 qx" "ulp t = pow2 qt" by (simp_all add: ulp_def qx_def qt_def)
  obtain n where n: "t = of_int n * ulp t" using rd_fixed_repr [OF assms(3)] by blast
  have "expo x \<le> expo t" using False assms by (intro expo_mono) auto
  then have "qx \<le> qt" by (simp add: qx_def qt_def)
  define K where "K = n * 2 ^ nat (qt - qx)"
  have "t = of_int n * (of_int (2 ^ nat (qt - qx)) * pow2 qx)"
    using n pow2_split [OF \<open>qx \<le> qt\<close>] by (simp add: u)
  also have "\<dots> = of_int K * ulp x" by (simp add: K_def u)
  finally have tk: "t = of_int K * ulp x" .
  have "x / ulp x \<le> t / ulp x" using assms(2) by (simp add: divide_right_mono)
  also have "\<dots> = of_int K" using tk by (metis nonzero_mult_div_cancel_right ulp_neq_0)
  finally have "roundEven (x / ulp x) \<le> K" by (rule roundEven_le)
  then have "of_int (roundEven (x / ulp x)) * ulp x \<le> of_int K * ulp x"
    by (intro mult_right_mono) simp_all
  moreover have "rd x = of_int (roundEven (x / ulp x)) * ulp x" using False by (simp add: rd_def)
  ultimately show ?thesis using tk by simp
qed

lemma rd_ge:
  assumes "0 \<le> t" and "t \<le> x" and "rd t = t"
  shows "t \<le> rd x"
proof (cases "t = 0")
  case True
  then show ?thesis using assms rd_nonneg [of x] by simp
next
  case False
  define qx where "qx = max (expo x) (- 1022) - 52"
  define qt where "qt = max (expo t) (- 1022) - 52"
  have u: "ulp x = pow2 qx" "ulp t = pow2 qt" by (simp_all add: ulp_def qx_def qt_def)
  have x: "x \<noteq> 0" "0 < x" "0 < t" using assms False by auto
  have rx: "rd x = of_int (roundEven (x / ulp x)) * ulp x" using x(1) by (simp add: rd_def)
  obtain n where n: "t = of_int n * ulp t" using rd_fixed_repr [OF assms(3)] by blast
  have et: "expo t \<le> expo x" using False assms by (intro expo_mono) auto
  show ?thesis
  proof (cases "qt = qx")
    case True
    then have tn: "t = of_int n * ulp x" using n u by simp
    have "of_int n = t / ulp x" using tn by (metis nonzero_mult_div_cancel_right ulp_neq_0)
    also have "\<dots> \<le> x / ulp x" using assms(2) by (simp add: divide_right_mono)
    finally have "n \<le> roundEven (x / ulp x)" by (rule roundEven_ge)
    then have "of_int n * ulp x \<le> of_int (roundEven (x / ulp x)) * ulp x"
      by (intro mult_right_mono) simp_all
    then show ?thesis using rx tn by simp
  next
    case False
    with et have lt: "expo t < expo x" "- 1022 < expo x" by (auto simp: qx_def qt_def)
    then have qx: "expo x = 52 + qx" by (simp add: qx_def)
    define K :: int where "K = 2 ^ 52"
    have "t < pow2 (expo t + 1)" using expo_bounds(2) [of t] x(3) by simp
    also have "\<dots> \<le> pow2 (expo x)" using lt by simp
    finally have t: "t < pow2 (expo x)" .
    have p: "pow2 (expo x) = of_int K * ulp x"
      using pow2_add [of 52 qx] pow2_nat [of 52] unfolding u qx by (simp add: K_def)
    have "of_int K = pow2 (expo x) / ulp x"
      using p by (metis nonzero_mult_div_cancel_right ulp_neq_0)
    also have "\<dots> \<le> x / ulp x"
      using expo_bounds(1) [of x] x by (simp add: divide_right_mono)
    finally have "K \<le> roundEven (x / ulp x)" by (rule roundEven_ge)
    then have "of_int K * ulp x \<le> of_int (roundEven (x / ulp x)) * ulp x"
      by (intro mult_right_mono) simp_all
    then have "pow2 (expo x) \<le> rd x" using p rx by simp
    with t show ?thesis by simp
  qed
qed

section \<open>Mutation success rate\<close>

lemma rd_1 [simp]: "rd 1 = 1"
  by (simp add: rd_eval)

lemma baseRate_pos: "0 < baseRate rarity"
  by (simp add: baseRate_def rd_eval)

lemma orElse_raritySuccessRates:
  "rarity \<in> set rarityOrder \<Longrightarrow> orElse raritySuccessRates rarity d = baseRate rarity"
proof -
  assume r: "rarity \<in> set rarityOrder"
  have "map_of raritySuccessRates rarity = Some (baseRate rarity)"
    using r by (auto simp: rarityOrder_def raritySuccessRates_def baseRate_def)
  then show ?thesis using baseRate_pos [of rarity] by (simp add: orElse_def)
qed

text \<open>
  C5. For a base fragment of one of the seven rarities, a non-empty list of components
  and a mutation-slots level of at least one, \<^verbatim>\<open>calculateMutationSuccessRate\<close> returns
  the base rate of the rarity minus 0.1 for every component beyond the first, floored at
  0.05, plus 0.05 for every level above the first, capped at 0.95, each operation being
  the operation on doubles; the result lies between the doubles 0.05 and 0.95, hence
  between the numbers 0.05 and 0.95, and it is the double 0.85 for a common base, one
  component and level one.
\<close>

theorem calculateMutationSuccessRate_formula:
  assumes "f_rarity baseFragment \<in> set rarityOrder"
    and "components \<noteq> []"
    and "1 \<le> mutationSlotsLevel gameState"
  shows "calculateMutationSuccessRate baseFragment components gameState =
           min (rd (max (rd (baseRate (f_rarity baseFragment)
                             - rd ((real (length components) - 1) * rd 0.1))) (rd 0.05)
                    + rd (real_of_int (mutationSlotsLevel gameState - 1) * rd 0.05))) (rd 0.95)
         \<and> rd 0.05 \<le> calculateMutationSuccessRate baseFragment components gameState
         \<and> calculateMutationSuccessRate baseFragment components gameState \<le> rd 0.95
         \<and> 0.05 \<le> calculateMutationSuccessRate baseFragment components gameState
         \<and> calculateMutationSuccessRate baseFragment components gameState \<le> 0.95
         \<and> (f_rarity baseFragment = ''common'' \<and> length components = 1
              \<and> mutationSlotsLevel gameState = 1
              \<longrightarrow> calculateMutationSuccessRate baseFragment components gameState = rd 0.85)"
proof -
  let ?rate = "calculateMutationSuccessRate baseFragment components gameState"
  define b where "b = max (rd (baseRate (f_rarity baseFragment)
                               - rd ((real (length components) - 1) * rd 0.1))) (rd 0.05)"
  define d where "d = rd (real_of_int (mutationSlotsLevel gameState - 1) * rd 0.05)"
  have lit: "0 \<le> rd 0.05" "rd 0.05 \<le> rd 0.95" "0.05 \<le> rd 0.05" "rd 0.95 \<le> 0.95"
    "rd 0.05 \<le> rd 0.85" "rd 0.85 \<le> rd 0.95"
    by (simp_all add: rd_eval)
  have eq: "?rate = min (rd (b + d)) (rd 0.95)"
    using assms(1)
    by (simp add: calculateMutationSuccessRate_def orElse_raritySuccessRates Let_def b_def d_def)
  have "0 \<le> real_of_int (mutationSlotsLevel gameState - 1) * rd 0.05"
    using assms(3) lit(1) by (intro mult_nonneg_nonneg) simp_all
  then have d: "0 \<le> d" unfolding d_def by (rule rd_nonneg)
  have "rd 0.05 \<le> b" unfolding b_def by (rule max.cobounded2)
  with d have "rd 0.05 \<le> b + d" by linarith
  with lit(1) have "rd 0.05 \<le> rd (b + d)" by (rule rd_ge) simp
  then have lo: "rd 0.05 \<le> ?rate" unfolding eq using lit(2) by (rule min.boundedI)
  have hi: "?rate \<le> rd 0.95" unfolding eq by (rule min.cobounded2)
  have c: "?rate = rd 0.85"
    if "f_rarity baseFragment = ''common'' \<and> length components = 1
        \<and> mutationSlotsLevel gameState = 1"
  proof -
    have "b = rd 0.85" using that lit(5) by (simp add: b_def baseRate_def max_def)
    moreover have "d = 0" using that by (simp add: d_def)
    ultimately show ?thesis unfolding eq using lit(6) by (simp add: min_def)
  qed
  have "0.05 \<le> ?rate" "?rate \<le> 0.95" using lo hi lit(3,4) by linarith+
  then show ?thesis using eq lo hi c unfolding b_def d_def by blast
qed

theorem calculateMutationSuccessRate_formula_witness:
  "f_rarity sampleBase \<in> set rarityOrder \<and> [sampleComponent] \<noteq> []
   \<and> 1 \<le> mutationSlotsLevel sampleGameState
   \<and> calculateMutationSuccessRate sampleBase [sampleComponent] sampleGameState = rd 0.85
   \<and> rd 0.85 = 7656119366529843 / 9007199254740992
   \<and> calculateMutationSuccessRate sampleBase
         [sampleComponent, sampleComponent, sampleComponent] sampleGameState
       = 5854679515581644 / 9007199254740992
   \<and> rd 0.65 = 5854679515581645 / 9007199254740992"
proof -
  have "calculateMutationSuccessRate sampleBase
          [sampleComponent, sampleComponent, sampleComponent] sampleGameState
        = 5854679515581644 / 9007199254740992"
    using calculateMutationSuccessRate_formula
      [of sampleBase "[sampleComponent, sampleComponent, sampleComponent]" sampleGameState]
    by (simp add: sampleBase_def sampleGameState_def rarityOrder_def baseRate_def rd_eval)
  moreover have "rd 0.85 = 7656119366529843 / 9007199254740992"
    "rd 0.65 = 5854679515581645 / 9007199254740992"
    by (simp_all add: rd_eval)
  ultimately show ?thesis
    using calculateMutationSuccessRate_formula [of sampleBase "[sampleComponent]" sampleGameState]
    by (simp add: sampleBase_def sampleGameState_def rarityOrder_def)
qed

section \<open>The generator\<close>

lemma VoidRNG_new_nonzero: "s \<noteq> 0 \<Longrightarrow> VoidRNG_new (Some s) now = s"
  by (simp add: VoidRNG_new_def)

lemma VoidRNG_new_deterministic:
  assumes "s \<noteq> 0"
  shows "draws n (VoidRNG_new (Some s) now1) = draws n (VoidRNG_new (Some s) now2)"
    and "random a b (VoidRNG_new (Some s) now1) = random a b (VoidRNG_new (Some s) now2)"
    and "randomInt a b (VoidRNG_new (Some s) now1) = randomInt a b (VoidRNG_new (Some s) now2)"
    and "weightedChoice items (VoidRNG_new (Some s) now1)
         = weightedChoice items (VoidRNG_new (Some s) now2)"
    and "rollRarity bonus (VoidRNG_new (Some s) now1) = rollRarity bonus (VoidRNG_new (Some s) now2)"
  using assms by (simp_all add: VoidRNG_new_nonzero)

text \<open>
  C1. Two instances constructed with the same explicit seed give the same sequence of
  draws. The constructor takes the clock for every falsy argument, so this fails for the
  seed 0: two instances given the seed 0 at the clock readings 1 and 2 start from
  different states and draw different values, the doubles of the quotients shown.
  (\<open>VoidRNG_new_deterministic\<close> is the property for the other seeds.)
\<close>

theorem VoidRNG_new_zero_seed_reads_clock:
  "VoidRNG_new (Some 0) 1 = 1 \<and> VoidRNG_new (Some 0) 2 = 2
   \<and> draws (Suc (Suc 0)) (VoidRNG_new (Some 0) 1)
       = [rd (58598 / 233280), rd (127215 / 233280)]
   \<and> draws (Suc (Suc 0)) (VoidRNG_new (Some 0) 2)
       = [rd (67899 / 233280), rd (88936 / 233280)]
   \<and> draws (Suc (Suc 0)) (VoidRNG_new (Some 0) 1)
       \<noteq> draws (Suc (Suc 0)) (VoidRNG_new (Some 0) 2)"
proof -
  have n: "next 1 = (rd (58598 / 233280), 58598)"
    "next 58598 = (rd (127215 / 233280), 127215)"
    "next 2 = (rd (67899 / 233280), 67899)" "next 67899 = (rd (88936 / 233280), 88936)"
    by (simp_all add: next_def fl_def jsRem_def)
  have d: "rd (58598 / 233280) \<noteq> rd (67899 / 233280)"
    by (simp add: rd_eval)
  show ?thesis
    using d by (simp add: VoidRNG_new_def n)
qed

text \<open>
  C6. \<^verbatim>\<open>rollRarity\<close> draws once, adds the bonus (the sum is the sum of doubles), caps
  the sum at 0.999999 and returns the tier of the first threshold, highest first, that the
  sum strictly exceeds (common when there is none); the generator has advanced by exactly
  one draw, the result is one of the seven tiers, and a sum equal to a threshold gets the
  tier below it.
\<close>

theorem rollRarity_ladder:
  "rollRarity bonusChance seed =
     (rarityLadder (min (rd (fst (next seed) + bonusChance)) (rd 0.999999)), snd (next seed))
   \<and> fst (rollRarity bonusChance seed) \<in> set rarityOrder
   \<and> (min (rd (fst (next seed) + bonusChance)) (rd 0.999999) = rd 0.999995
        \<longrightarrow> fst (rollRarity bonusChance seed) = ''mythic'')
   \<and> (min (rd (fst (next seed) + bonusChance)) (rd 0.999999) = rd 0.9999
        \<longrightarrow> fst (rollRarity bonusChance seed) = ''legendary'')
   \<and> (min (rd (fst (next seed) + bonusChance)) (rd 0.999999) = rd 0.999
        \<longrightarrow> fst (rollRarity bonusChance seed) = ''epic'')
   \<and> (min (rd (fst (next seed) + bonusChance)) (rd 0.999999) = rd 0.99
        \<longrightarrow> fst (rollRarity bonusChance seed) = ''rare'')
   \<and> (min (rd (fst (next seed) + bonusChance)) (rd 0.999999) = rd 0.95
        \<longrightarrow> fst (rollRarity bonusChance seed) = ''uncommon'')
   \<and> (min (rd (fst (next seed) + bonusChance)) (rd 0.999999) = rd 0.8
        \<longrightarrow> fst (rollRarity bonusChance seed) = ''common'')"
proof -
  obtain roll seed' where n: "next seed = (roll, seed')" by (cases "next seed")
  let ?a = "min (rd (roll + bonusChance)) (rd 0.999999)"
  have l: "(if x > rd 0.999995 then ''void_touched''
             else if x > rd 0.9999 then ''mythic''
             else if x > rd 0.999 then ''legendary''
             else if x > rd 0.99 then ''epic''
             else if x > rd 0.95 then ''rare''
             else if x > rd 0.8 then ''uncommon''
             else ''common'') = rarityLadder x" for x :: real
    by (simp add: rarityLadder_def thresholds_def)
  have r: "rollRarity bonusChance seed = (rarityLadder ?a, seed')"
    unfolding rollRarity_def n Let_def prod.case l ..
  have "rarityLadder x \<in> set rarityOrder" for x
    by (simp add: rarityLadder_def thresholds_def rarityOrder_def)
  then have m: "rarityLadder ?a \<in> set rarityOrder" .
  have e: "rarityLadder (rd 0.999995) = ''mythic''" "rarityLadder (rd 0.9999) = ''legendary''"
    "rarityLadder (rd 0.999) = ''epic''" "rarityLadder (rd 0.99) = ''rare''"
    "rarityLadder (rd 0.95) = ''uncommon''" "rarityLadder (rd 0.8) = ''common''"
    by (simp_all add: rarityLadder_def thresholds_def rd_eval)
  show ?thesis
    unfolding r n fst_conv snd_conv using m e by (metis (no_types))
qed

theorem rollRarity_ladder_witness:
  "min (rd (fst (next 22643) + rd 0.8)) (rd 0.999999) = rd 0.8
   \<and> rollRarity (rd 0.8) 22643 = (''common'', 0)
   \<and> min (rd (fst (next 22643) + rd 0.95)) (rd 0.999999) = rd 0.95
   \<and> rollRarity (rd 0.95) 22643 = (''uncommon'', 0)
   \<and> min (rd (fst (next 22643) + rd 0.99)) (rd 0.999999) = rd 0.99
   \<and> rollRarity (rd 0.99) 22643 = (''rare'', 0)
   \<and> min (rd (fst (next 22643) + rd 0.999)) (rd 0.999999) = rd 0.999
   \<and> rollRarity (rd 0.999) 22643 = (''epic'', 0)
   \<and> min (rd (fst (next 22643) + rd 0.9999)) (rd 0.999999) = rd 0.9999
   \<and> rollRarity (rd 0.9999) 22643 = (''legendary'', 0)
   \<and> min (rd (fst (next 22643) + rd 0.999995)) (rd 0.999999) = rd 0.999995
   \<and> rollRarity (rd 0.999995) 22643 = (''mythic'', 0)
   \<and> rollRarity 0 209267 = (''common'', 186624)
   \<and> fst (next 209267) = rd 0.8
   \<and> rd (rd 0.8 + rd 0.15) = 8556839292003943 / 9007199254740992
   \<and> rd 0.95 = 8556839292003942 / 9007199254740992
   \<and> rollRarity (rd 0.15) 209267 = (''rare'', 186624)"
proof -
  have n: "next 22643 = (0, 0)" "next 209267 = (rd 0.8, 186624)"
    by (simp_all add: next_def fl_def jsRem_def)
  have v: "rd (rd 0.8 + rd 0.15) = 8556839292003943 / 9007199254740992"
    "rd 0.95 = 8556839292003942 / 9007199254740992"
    by (simp_all add: rd_eval)
  have lit: "rd 0.8 \<le> rd 0.999999" "rd 0.95 \<le> rd 0.999999" "rd 0.99 \<le> rd 0.999999"
    "rd 0.999 \<le> rd 0.999999" "rd 0.9999 \<le> rd 0.999999" "rd 0.999995 \<le> rd 0.999999"
    by (simp_all add: rd_eval)
  have a: "rarityLadder (min (rd (rd 0.8 + rd 0.15)) (rd 0.999999)) = ''rare''"
    by (simp add: rarityLadder_def thresholds_def rd_eval)
  have c0: "min (rd (fst (next 22643) + rd 0.8)) (rd 0.999999) = rd 0.8"
    using lit(1) by (simp add: n)
  have r0: "rollRarity (rd 0.8) 22643 = (''common'', 0)"
    using rollRarity_ladder [of "rd 0.8" 22643] c0 n(1) by (metis fst_conv snd_conv)
  have c1: "min (rd (fst (next 22643) + rd 0.95)) (rd 0.999999) = rd 0.95"
    using lit(2) by (simp add: n)
  have r1: "rollRarity (rd 0.95) 22643 = (''uncommon'', 0)"
    using rollRarity_ladder [of "rd 0.95" 22643] c1 n(1) by (metis fst_conv snd_conv)
  have c2: "min (rd (fst (next 22643) + rd 0.99)) (rd 0.999999) = rd 0.99"
    using lit(3) by (simp add: n)
  have r2: "rollRarity (rd 0.99) 22643 = (''rare'', 0)"
    using rollRarity_ladder [of "rd 0.99" 22643] c2 n(1) by (metis fst_conv snd_conv)
  have c3: "min (rd (fst (next 22643) + rd 0.999)) (rd 0.999999) = rd 0.999"
    using lit(4) by (simp add: n)
  have r3: "rollRarity (rd 0.999) 22643 = (''epic'', 0)"
    using rollRarity_ladder [of "rd 0.999" 22643] c3 n(1) by (metis fst_conv snd_conv)
  have c4: "min (rd (fst (next 22643) + rd 0.9999)) (rd 0.999999) = rd 0.9999"
    using lit(5) by (simp add: n)
  have r4: "rollRarity (rd 0.9999) 22643 = (''legendary'', 0)"
    using rollRarity_ladder [of "rd 0.9999" 22643] c4 n(1) by (metis fst_conv snd_conv)
  have c5: "min (rd (fst (next 22643) + rd 0.999995)) (rd 0.999999) = rd 0.999995"
    using lit(6) by (simp add: n)
  have r5: "rollRarity (rd 0.999995) 22643 = (''mythic'', 0)"
    using rollRarity_ladder [of "rd 0.999995" 22643] c5 n(1) by (metis fst_conv snd_conv)
  have cz: "min (rd (fst (next 209267) + 0)) (rd 0.999999) = rd 0.8"
    using lit(1) by (simp add: n)
  have z: "rollRarity 0 209267 = (''common'', 186624)"
    using rollRarity_ladder [of 0 209267] cz n(2) by (metis fst_conv snd_conv)
  have a': "rarityLadder (min (rd (fst (next 209267) + rd 0.15)) (rd 0.999999)) = ''rare''"
    using a by (simp add: n)
  have b: "rollRarity (rd 0.15) 209267 = (''rare'', 186624)"
    using rollRarity_ladder [of "rd 0.15" 209267] a' n(2) by (metis snd_conv)
  have f: "fst (next 209267) = rd 0.8" by (simp add: n)
  show ?thesis
    using c0 r0 c1 r1 c2 r2 c3 r3 c4 r4 c5 r5 z f v b by blast
qed

subsection \<open>Weighted choice\<close>

lemma jsRem_bounds: "0 < b \<Longrightarrow> - b < jsRem a b \<and> jsRem a b < b"
proof -
  assume b: "0 < b"
  have m: "0 \<le> \<bar>a\<bar> mod \<bar>b\<bar> \<and> \<bar>a\<bar> mod \<bar>b\<bar> < b" using b by simp
  show ?thesis
    by (cases "a < 0"; cases "a = 0") (use m in \<open>auto simp: jsRem_def sgn_if\<close>)
qed

lemma rd_pow2: "- 1074 \<le> q \<Longrightarrow> rd (pow2 q) = pow2 q"
  using rd_multiple [of 1 q] by simp

lemma next_le_1: "fst (next seed) \<le> 1"
proof -
  define s where "s = jsRem (fl (fl (seed * 9301) + 49297)) 233280"
  have s: "s < 233280" using jsRem_bounds [of 233280 "fl (fl (seed * 9301) + 49297)"]
    by (simp add: s_def)
  have n: "fst (next seed) = rd (real_of_int s / 233280)"
    by (simp add: next_def Let_def s_def)
  show ?thesis
  proof (cases "0 \<le> s")
    case True
    then have "0 \<le> real_of_int s / 233280" "real_of_int s / 233280 \<le> 1" using s by simp_all
    then have "rd (real_of_int s / 233280) \<le> 1" by (rule rd_le) simp
    then show ?thesis by (simp add: n)
  next
    case False
    then have "real_of_int s / 233280 \<le> 0" by simp
    then have "rd (real_of_int s / 233280) \<le> 0" by (rule rd_nonpos)
    then show ?thesis by (simp add: n)
  qed
qed

lemma next_pos:
  assumes "0 < fst (next seed)"
  shows "pow2 (- 18) \<le> fst (next seed)"
proof -
  define s where "s = jsRem (fl (fl (seed * 9301) + 49297)) 233280"
  have n: "fst (next seed) = rd (real_of_int s / 233280)"
    by (simp add: next_def Let_def s_def)
  have "0 < s"
  proof (rule ccontr)
    assume "\<not> 0 < s"
    then have "real_of_int s / 233280 \<le> 0" by simp
    then have "rd (real_of_int s / 233280) \<le> 0" by (rule rd_nonpos)
    with assms n show False by simp
  qed
  then have "1 \<le> real_of_int s" by simp
  then have "pow2 (- 18) \<le> real_of_int s / 233280" by (simp add: pow2_def)
  with pow2_nonneg have "pow2 (- 18) \<le> rd (real_of_int s / 233280)"
    by (rule rd_ge) (simp add: rd_pow2)
  then show ?thesis by (simp add: n)
qed

lemma foldl_weights_nonneg:
  "0 \<le> c \<Longrightarrow> \<forall>(i, w)\<in>set items. 0 \<le> w
     \<Longrightarrow> 0 \<le> foldl (\<lambda>sum item. rd (sum + snd item)) c items"
proof (induction items arbitrary: c)
  case Nil
  then show ?case by simp
next
  case (Cons a items)
  have "0 \<le> c + snd a" using Cons.prems by (cases a) auto
  then have "0 \<le> rd (c + snd a)" by (rule rd_nonneg)
  then show ?case using Cons by simp
qed

lemma foldl_weights_zero:
  "\<forall>(i, w)\<in>set items. w = 0 \<Longrightarrow> foldl (\<lambda>sum item. rd (sum + snd item)) 0 items = 0"
  by (induction items) auto

lemma totalWeight_fixed: "rd (totalWeight items) = totalWeight items"
  by (cases items rule: rev_cases) (simp_all add: totalWeight_def)

lemma walk_nonzero:
  "c < r \<Longrightarrow> rd c = c \<Longrightarrow> walk r c items = Some x \<Longrightarrow> \<exists>w. (x, w) \<in> set items \<and> w \<noteq> 0"
proof (induction r c items rule: walk.induct)
  case (1 r c)
  then show ?case by simp
next
  case (2 r c item weight items)
  show ?case
  proof (cases "r \<le> rd (c + weight)")
    case True
    with 2 have "x = item" by (simp add: Let_def)
    moreover have "weight \<noteq> 0" using True 2(2,3) by auto
    ultimately show ?thesis by auto
  next
    case False
    with 2 have "walk r (rd (c + weight)) items = Some x" "rd (c + weight) < r"
      by (auto simp: Let_def)
    with 2(1) [OF refl False] obtain w where "(x, w) \<in> set items" "w \<noteq> 0" by auto
    then show ?thesis by auto
  qed
qed

lemma walk_finds:
  "items \<noteq> [] \<Longrightarrow> r \<le> foldl (\<lambda>sum item. rd (sum + snd item)) c items
     \<Longrightarrow> walk r c items \<noteq> None"
proof (induction r c items rule: walk.induct)
  case (1 r c)
  then show ?case by simp
next
  case (2 r c item weight items)
  show ?case
  proof (cases "r \<le> rd (c + weight)")
    case True
    then show ?thesis by (simp add: Let_def)
  next
    case False
    with 2(3) have "items \<noteq> []" by (cases items) auto
    with 2 False show ?thesis by (simp add: Let_def)
  qed
qed

lemma rd_underflow:
  assumes "\<bar>x\<bar> < pow2 (- 1075)"
  shows "rd x = 0"
proof (cases "x = 0")
  case True
  then show ?thesis by simp
next
  case False
  define y where "y = x / ulp x"
  have "\<bar>x\<bar> < pow2 (- 1076 + 1)" using assms by simp
  with False have "expo x \<le> - 1076" by (rule expo_le)
  then have u: "ulp x = pow2 (- 1074)" by (simp add: ulp_def max_def)
  have "pow2 (- 1074) = 2 * pow2 (- 1075)"
    using pow2_add [of 1 "- 1075"] by (simp add: pow2_def)
  with assms have "\<bar>x\<bar> / pow2 (- 1074) < 1 / 2" by (simp add: pos_divide_less_eq)
  then have y: "\<bar>y\<bar> < 1 / 2" by (simp add: u y_def)
  have "roundEven y = 0"
  proof (cases "0 \<le> y")
    case True
    with y have "of_int 0 \<le> y" "y < of_int 0 + 1" by simp_all
    then have "\<lfloor>y\<rfloor> = 0" by (rule floor_unique)
    with y True show ?thesis by (simp add: roundEven_def)
  next
    case False
    with y have "of_int (- 1) \<le> y" "y < of_int (- 1) + 1" by simp_all
    then have "\<lfloor>y\<rfloor> = - 1" by (rule floor_unique)
    with y False show ?thesis by (simp add: roundEven_def)
  qed
  then show ?thesis using False by (simp add: rd_def y_def)
qed




text \<open>
  A positive draw of the generator is not enough when the product with the total weight
  underflows: with the weights 0 and \<open>2 ^ - 1074\<close>, the least positive double, the state
  1 draws 0.2512 and \<^verbatim>\<open>random(0, totalWeight)\<close> is 0, so the first item, of weight 0, is
  returned.
\<close>

lemma weightedChoice_underflow:
  "0 < fst (next 1) \<and> totalWeight [(''A'', 0), (''B'', pow2 (- 1074))] = pow2 (- 1074)
   \<and> fst (random 0 (pow2 (- 1074)) 1) = 0
   \<and> weightedChoice [(''A'', 0), (''B'', pow2 (- 1074))] 1 = (Some ''A'', 58598)"
proof -
  have n: "next 1 = (2262533701686011 / 9007199254740992, 58598)"
    by (simp add: next_def fl_def jsRem_def rd_eval)
  have t: "rd (pow2 (- 1074)) = pow2 (- 1074)" by (simp add: rd_pow2)
  have h: "pow2 (- 1074) = 2 * pow2 (- 1075)"
    using pow2_add [of 1 "- 1075"] by (simp add: pow2_def)
  have "\<bar>2262533701686011 / 9007199254740992 * pow2 (- 1074)\<bar>
        = 2262533701686011 / 4503599627370496 * pow2 (- 1075)"
    by (simp add: h abs_mult)
  also have "\<dots> < 1 * pow2 (- 1075)" by (intro mult_strict_right_mono) simp_all
  finally have "\<bar>2262533701686011 / 9007199254740992 * pow2 (- 1074)\<bar> < pow2 (- 1075)"
    by simp
  then have u: "rd (2262533701686011 / 9007199254740992 * pow2 (- 1074)) = 0"
    by (rule rd_underflow)
  show ?thesis
    using t u by (simp add: weightedChoice_def totalWeight_def random_def n Let_def)
qed

section \<open>Device statistics\<close>

lemma getDeviceStats_formulas:
  "spinSpeed (getDeviceStats g) = 1 + (real_of_int (spinSpeedLevel g) - 1) * 0.2
   \<and> rarityBonus (getDeviceStats g) = (real_of_int (rarityOddsLevel g) - 1) * 0.0005
   \<and> mutationSlots (getDeviceStats g) = 2 + mutationSlotsLevel g
   \<and> c_spinSpeed (getDeviceStats_client g) = 1 + (real_of_int (spinSpeedLevel g) - 1) * 0.2
   \<and> c_mutationSlots (getDeviceStats_client g) = 2 + mutationSlotsLevel g"
  by (simp add: getDeviceStats_def getDeviceStats_client_def)

text \<open>
  C9. \<^verbatim>\<open>getDeviceStats\<close> returns \<open>rarityBonus = (rarityOddsLevel - 1) * 0.0005\<close> in
  both implementations. The server's does (\<open>getDeviceStats_formulas\<close>, which also has
  the two fields on which both agree with the claim); the client's multiplies by 0.05, so at
  level 2 the server returns 0.0005 and the client 0.05.
\<close>

theorem getDeviceStats_client_rarityBonus:
  "rarityBonus (getDeviceStats (sampleGameState\<lparr>rarityOddsLevel := 2\<rparr>)) = 0.0005
   \<and> c_rarityBonus (getDeviceStats_client (sampleGameState\<lparr>rarityOddsLevel := 2\<rparr>)) = 0.05"
  by (simp add: getDeviceStats_def getDeviceStats_client_def sampleGameState_def)

section \<open>The affixes of a mutated fragment\<close>

lemma foldl_pushAffix:
  "foldl (pushAffix n sc) m mods =
     m\<lparr>affixes := affixes m @
        map (\<lambda>md. \<lparr>a_name = n @ '' - '' @ m_name md, a_value = sc (m_value md),
                   a_source = ''mutation''\<rparr>) mods\<rparr>"
  by (induction mods arbitrary: m) (simp_all add: pushAffix_def)

lemma affixes_enhanceStat: "affixes (enhanceStat c m e) = affixes m"
  by (simp add: enhanceStat_def split: option.splits)

lemma affixes_foldl_enhanceStat: "affixes (foldl (enhanceStat c) m es) = affixes m"
  by (induction es arbitrary: m) (simp_all add: affixes_enhanceStat)

lemma affixes_applyComponent:
  "affixes (applyComponent m c) = affixes m @ mutationAffixes c"
  by (simp add: applyComponent_def mutationAffixes_def foldl_pushAffix
      affixes_foldl_enhanceStat Let_def)

lemma affixes_foldl_applyComponent:
  "affixes (foldl applyComponent m cs) = affixes m @ concat (map mutationAffixes cs)"
  by (induction cs arbitrary: m) (simp_all add: affixes_applyComponent)

lemma affixes_performMutation:
  "affixes (performMutation b cs gs now) = affixes b @ concat (map mutationAffixes cs)"
  by (simp add: performMutation_def Let_def affixes_foldl_applyComponent split: prod.splits)

lemma length_mutationAffixes:
  "f_type c = ''component'' \<or> f_type c = ''modifier''
     \<Longrightarrow> length (mutationAffixes c) = length (implicitMods c)"
  by (auto simp: mutationAffixes_def)

text \<open>
  C7, as the code has it. The affixes of the result are the affixes the base fragment
  already has, followed by one affix for every implicit mod of the components, in the
  order of the components and then of the mods of each; a mod of a component gives the
  value \<open>floor (value * 0.7)\<close> of the double product (62 for the value 90), a mod of a
  modifier its value, both with the source "mutation". So the length is the number of
  affixes of the base plus the number of implicit mods of the components.
\<close>

theorem performMutation_affixes:
  assumes "\<forall>c\<in>set components. f_type c = ''component'' \<or> f_type c = ''modifier''"
  shows "affixes (performMutation baseFragment components gameState now) =
           affixes baseFragment @ concat (map mutationAffixes components)
         \<and> length (affixes (performMutation baseFragment components gameState now)) =
             length (affixes baseFragment)
             + sum_list (map (\<lambda>c. length (implicitMods c)) components)"
proof -
  have "length (concat (map mutationAffixes components)) =
          sum_list (map (\<lambda>c. length (implicitMods c)) components)"
    using assms by (induction components) (simp_all add: length_mutationAffixes)
  then show ?thesis by (simp add: affixes_performMutation)
qed

theorem performMutation_affixes_witness:
  "list_all (\<lambda>c. f_type c = ''component'' \<or> f_type c = ''modifier'') [sampleComponent]
   \<and> list_all (\<lambda>c. f_type c = ''component'' \<or> f_type c = ''modifier'')
         [sampleComponent, sampleHeavyComponent]
   \<and> affixes (performMutation sampleAffixedBase [sampleComponent] sampleGameState 0) =
       [\<lparr>a_name = ''Void Iron - Void Affinity'', a_value = 7, a_source = ''mutation''\<rparr>,
        \<lparr>a_name = ''Void Iron - Void Affinity'', a_value = 7, a_source = ''mutation''\<rparr>]
   \<and> affixes (performMutation sampleBase [sampleComponent, sampleHeavyComponent]
                sampleGameState 0) =
       [\<lparr>a_name = ''Void Iron - Void Affinity'', a_value = 7, a_source = ''mutation''\<rparr>,
        \<lparr>a_name = ''Essence Core - Stellar Power'', a_value = 62, a_source = ''mutation''\<rparr>]"
proof -
  have v: "\<lfloor>rd (10 * rd 0.7)\<rfloor> = 7" "\<lfloor>rd (90 * rd 0.7)\<rfloor> = 62"
    by (simp_all add: rd_eval)
  show ?thesis
    using performMutation_affixes [of "[sampleComponent]" sampleAffixedBase sampleGameState 0]
      performMutation_affixes [of "[sampleComponent, sampleHeavyComponent]" sampleBase
        sampleGameState 0] v
    by (simp add: sampleComponent_def sampleHeavyComponent_def sampleAffixedBase_def
        sampleBase_def mutationAffixes_def)
qed

text \<open>
  C7, as stated, fails: the length is not the number of implicit mods of the components
  when the base fragment has affixes. The result of a mutation is again a base item, and
  mutating it with a component of one mod gives two affixes.
\<close>

theorem performMutation_affixes_counterexample:
  "f_type sampleAffixedBase = ''base_item'' \<and> f_type sampleComponent = ''component''
   \<and> length (implicitMods sampleComponent) = 1
   \<and> length (affixes (performMutation sampleAffixedBase [sampleComponent] sampleGameState 0)) = 2"
proof -
  have "\<lfloor>rd (10 * rd 0.7)\<rfloor> = 7" by (simp add: rd_eval)
  then show ?thesis
    by (simp add: affixes_performMutation sampleComponent_def sampleAffixedBase_def
        sampleBase_def mutationAffixes_def)
qed

section \<open>The routes\<close>

subsection \<open>Storage operations\<close>

lemma find_Some_mem: "find P xs = Some x \<Longrightarrow> x \<in> set xs \<and> P x"
  by (induction xs) (auto split: if_splits)

lemma getGameState_mem:
  "getGameState st uid = Some g \<Longrightarrow> g \<in> set (gameStates st) \<and> userId g = uid"
  unfolding getGameState_def by (drule find_Some_mem) simp

lemma getGameState_ok: "storageOk st \<Longrightarrow> getGameState st uid = Some g \<Longrightarrow> gameStateOk g"
  by (auto dest: getGameState_mem simp: storageOk_def list_all_iff)

lemma getFragments_quantity:
  "storageOk st \<Longrightarrow> find P (getFragments st gid) = Some f \<Longrightarrow> 1 \<le> quantity f"
  by (auto dest!: find_Some_mem simp: storageOk_def list_all_iff getFragments_def)

lemma updateGameState_ok:
  assumes "storageOk st" and "updateGameState st uid upd now = Some (g', st')"
    and "\<And>g. gameStateOk g \<Longrightarrow> gameStateOk (upd g)"
  shows "storageOk st'"
  using assms
  by (auto simp: updateGameState_def storageOk_def Let_def list_all_iff gameStateOk_def
      split: option.splits)

lemma deleteFragment_ok: "storageOk st \<Longrightarrow> storageOk (deleteFragment st i)"
  by (auto simp: deleteFragment_def storageOk_def list_all_iff)

lemma foldl_deleteFragment_ok: "storageOk st \<Longrightarrow> storageOk (foldl deleteFragment st ids)"
  by (induction ids arbitrary: st) (auto simp: deleteFragment_ok)

lemma createFragment_ok:
  "storageOk st \<Longrightarrow> 1 \<le> if_quantity ins \<Longrightarrow> createFragment st ins i now = (f, st')
     \<Longrightarrow> storageOk st'"
  by (auto simp: createFragment_def storageOk_def list_all_iff Let_def)

lemma updateMarketplaceListing_ok:
  "storageOk st \<Longrightarrow> updateMarketplaceListing st t r upd now = Some (l, st') \<Longrightarrow> storageOk st'"
  by (auto simp: updateMarketplaceListing_def storageOk_def Let_def split: option.splits)

lemma orElse_shatter_pos: "0 < orElse shatterMultipliers r 1"
  by (simp add: orElse_def shatterMultipliers_def)

lemma calculateShatterValue_nonneg: "0 \<le> quantity f \<Longrightarrow> 0 \<le> calculateShatterValue f"
  using orElse_shatter_pos [of "f_rarity f"]
  by (simp add: calculateShatterValue_def Let_def)

lemma initialStorage_ok: "storageOk (initialStorage now)"
  by (simp add: initialStorage_def storageOk_def)

lemma gamestate_ok: "storageOk st \<Longrightarrow> storageOk (snd (gamestate st session env))"
  by (auto simp: gamestate_def createGameState_def storageOk_def gameStateOk_def Let_def
      split: option.splits)

lemma map_filter_all_Some: "map f ids = map Some cs \<Longrightarrow> List.map_filter f ids = cs"
  by (induction ids arbitrary: cs) (auto simp: List.map_filter_simps)

lemma find_map_update:
  assumes "find P xs = Some x" and "\<And>y. P y \<Longrightarrow> P (f y)"
  shows "find P (map (\<lambda>y. if P y then f y else y) xs) = Some (f x)"
  using assms by (induction xs) (auto split: if_splits)

lemma updateGameState_flux:
  assumes "getGameState st uid = Some g"
  shows "updateGameState st uid (\<lambda>g'. g'\<lparr>flux := v\<rparr>) now =
           Some (g\<lparr>flux := v, g_updatedAt := now\<rparr>,
                 st\<lparr>gameStates := map (\<lambda>g'. if userId g' = uid
                                              then g'\<lparr>flux := v, g_updatedAt := now\<rparr> else g')
                                       (gameStates st)\<rparr>)"
proof -
  have "find (\<lambda>g. userId g = uid)
          (map (\<lambda>g. if userId g = uid then g\<lparr>flux := v, g_updatedAt := now\<rparr> else g) (gameStates st))
        = Some (g\<lparr>flux := v, g_updatedAt := now\<rparr>)"
    using assms unfolding getGameState_def
    by (rule find_map_update) simp
  then show ?thesis by (simp add: updateGameState_def Let_def)
qed

lemma foldl_deleteFragment:
  "foldl deleteFragment st ids =
     st\<lparr>fragments := filter (\<lambda>f. f_id f \<notin> set ids) (fragments st)\<rparr>"
proof (induction ids arbitrary: st)
  case Nil
  then show ?case by simp
next
  case (Cons i ids)
  have "foldl deleteFragment st (i # ids) = foldl deleteFragment (deleteFragment st i) ids"
    by simp
  also have "\<dots> = (deleteFragment st i)
      \<lparr>fragments := filter (\<lambda>f. f_id f \<notin> set ids) (fragments (deleteFragment st i))\<rparr>"
    by (rule Cons.IH)
  also have "\<dots> = st\<lparr>fragments := filter (\<lambda>f. f_id f \<notin> set (i # ids)) (fragments st)\<rparr>"
    by (simp add: deleteFragment_def conj_commute)
  finally show ?case .
qed

subsection \<open>An accepted mutation\<close>

lemma mutate_accepted:
  assumes "\<not> falsy session"
    and "getGameState st (the session) = Some gameState"
    and "baseFragmentId body = Some base" and "base \<noteq> []"
    and "componentFragmentIds body = Some ids" and "ids \<noteq> []"
    and "find (\<lambda>f. f_id f = base) (getFragments st (g_id gameState)) = Some baseFragment"
    and "f_type baseFragment = ''base_item''"
    and "map (\<lambda>i. find (\<lambda>f. f_id f = i) (getFragments st (g_id gameState))) ids
           = map Some components"
    and "\<forall>c\<in>set components. f_type c = ''component'' \<or> f_type c = ''modifier''"
    and "int (length components) \<le> 2 + mutationSlotsLevel gameState"
    and "calculateMutationCost baseFragment components \<le> flux gameState"
  shows "mutate st session body env =
     (let fluxCost = calculateMutationCost baseFragment components;
          successRate = calculateMutationSuccessRate baseFragment components gameState;
          st2 = st\<lparr>gameStates :=
                     map (\<lambda>g. if userId g = the session
                               then g\<lparr>flux := flux gameState - fluxCost,
                                      g_updatedAt := dateNow env 0\<rparr>
                               else g) (gameStates st),
                   fragments := filter (\<lambda>f. f_id f \<notin> set (base # ids)) (fragments st)\<rparr>
      in if mathRandom env < successRate
         then (let created =
                     (performMutation baseFragment components gameState (dateNow env 1))
                       \<lparr>f_id := randomUUID env 0, gameStateId := g_id gameState,
                        f_createdAt := dateNow env 2\<rparr>
               in (MutationJson True (Some created) (base # ids) fluxCost
                     (Math_round (successRate * 100)),
                   st2\<lparr>fragments := fragments st2 @ [created]\<rparr>))
         else (MutationJson False None (base # ids) fluxCost (Math_round (successRate * 100)),
               st2))"
proof -
  have comps: "List.map_filter (\<lambda>i. find (\<lambda>f. f_id f = i) (getFragments st (g_id gameState))) ids
               = components"
    using assms(9) by (rule map_filter_all_Some)
  have len: "length components = length ids"
    using assms(9) by (metis length_map)
  have valid: "filter (\<lambda>f. f_type f \<noteq> ''component'' \<and> f_type f \<noteq> ''modifier'') components = []"
    using assms(10) by (auto simp: filter_empty_conv)
  note upd = updateGameState_flux [OF assms(2)]
  show ?thesis
    using assms(1,3-8,11,12)
    by (simp add: mutate_def falsy_def Let_def comps len valid assms(2) upd
        foldl_deleteFragment createFragment_def)
qed

subsection \<open>Every route keeps flux and levels in range\<close>

lemma spin_ok:
  assumes "storageOk st"
  shows "storageOk (snd (spin st session fragment env))"
  using assms
  by (auto simp: spin_def Let_def createFragment_def updateGameState_def storageOk_def
      list_all_iff gameStateOk_def
      split: option.splits prod.splits if_splits dest!: getGameState_mem find_Some_mem)

lemma shatter_ok:
  assumes "storageOk st"
  shows "storageOk (snd (shatter st session fragmentId env))"
  using assms
  apply (auto simp: shatter_def Let_def deleteFragment_def updateGameState_def storageOk_def
      list_all_iff gameStateOk_def getFragments_def
      split: option.splits prod.splits if_splits dest!: getGameState_mem find_Some_mem)
  subgoal for g f g'
    using calculateShatterValue_nonneg [of f] by fastforce
  done

lemma sell_ok:
  assumes "storageOk st"
  shows "storageOk (snd (sell st session fragmentId env))"
  using assms
  by (auto simp: sell_def Let_def deleteFragment_def updateGameState_def storageOk_def
      updateMarketplaceListing_def
      list_all_iff gameStateOk_def getFragments_def
      split: option.splits prod.splits if_splits dest!: getGameState_mem find_Some_mem)

lemma updateGameState_case_ok:
  assumes "storageOk st" and "\<And>g'. gameStateOk g' \<Longrightarrow> gameStateOk (u g')"
  shows "storageOk (snd (case updateGameState st uid u now of
                           None \<Rightarrow> (r, st)
                         | Some (x, st1) \<Rightarrow> (f x, st1)))"
  using assms by (auto split: option.splits elim: updateGameState_ok)

lemma upgrade_ok:
  assumes "storageOk st"
  shows "storageOk (snd (upgrade st session upgradeType env))"
proof (cases "falsy session")
  case True
  then show ?thesis using assms by (simp add: upgrade_def)
next
  case nf: False
  show ?thesis
  proof (cases "getGameState st (the session)")
    case None
    then show ?thesis using assms nf by (simp add: upgrade_def)
  next
    case (Some g)
    let ?cost = "calculateDeviceUpgradeCost g upgradeType"
    have g: "gameStateOk g" using assms Some by (rule getGameState_ok)
    show ?thesis
    proof (cases "flux g < ?cost")
      case True
      then show ?thesis using assms nf Some by (simp add: upgrade_def)
    next
      case False
      have u: "gameStateOk (g'\<lparr>flux := flux g - ?cost, spinSpeedLevel := spinSpeedLevel g + 1\<rparr>)"
        "gameStateOk (g'\<lparr>flux := flux g - ?cost, rarityOddsLevel := rarityOddsLevel g + 1\<rparr>)"
        "gameStateOk (g'\<lparr>flux := flux g - ?cost, fluxCostLevel := fluxCostLevel g + 1\<rparr>)"
        "gameStateOk (g'\<lparr>flux := flux g - ?cost, mutationSlotsLevel := mutationSlotsLevel g + 1\<rparr>)"
        if "gameStateOk g'" for g'
        using that g False by (simp_all add: gameStateOk_def)
      consider (a) "upgradeType = ''spinSpeed''" | (b) "upgradeType = ''rarityOdds''"
        | (c) "upgradeType = ''fluxCost''" | (d) "upgradeType = ''mutationSlots''"
        | (e) "upgradeType \<noteq> ''spinSpeed''" "upgradeType \<noteq> ''rarityOdds''"
              "upgradeType \<noteq> ''fluxCost''" "upgradeType \<noteq> ''mutationSlots''"
        by blast
      then show ?thesis
      proof cases
        case a
        have "\<not> flux g < calculateDeviceUpgradeCost g upgradeType \<Longrightarrow> ?thesis"
          using nf Some unfolding upgrade_def Let_def a
          by (simp add: updateGameState_case_ok [OF assms u(1) [unfolded a]])
        then show ?thesis using False .
      next
        case b
        have "\<not> flux g < calculateDeviceUpgradeCost g upgradeType \<Longrightarrow> ?thesis"
          using nf Some unfolding upgrade_def Let_def b
          by (simp add: updateGameState_case_ok [OF assms u(2) [unfolded b]])
        then show ?thesis using False .
      next
        case c
        have "\<not> flux g < calculateDeviceUpgradeCost g upgradeType \<Longrightarrow> ?thesis"
          using nf Some unfolding upgrade_def Let_def c
          by (simp add: updateGameState_case_ok [OF assms u(3) [unfolded c]])
        then show ?thesis using False .
      next
        case d
        have "\<not> flux g < calculateDeviceUpgradeCost g upgradeType \<Longrightarrow> ?thesis"
          using nf Some unfolding upgrade_def Let_def d
          by (simp add: updateGameState_case_ok [OF assms u(4) [unfolded d]])
        then show ?thesis using False .
      next
        case e
        then show ?thesis
          using assms nf Some False by (simp add: upgrade_def Let_def)
      qed
    qed
  qed
qed

lemma quantity_foldl_pushAffix: "quantity (foldl (pushAffix n sc) m mods) = quantity m"
  by (induction mods arbitrary: m) (simp_all add: pushAffix_def)

lemma quantity_foldl_enhanceStat: "quantity (foldl (enhanceStat c) m es) = quantity m"
  by (induction es arbitrary: m) (simp_all add: enhanceStat_def split: option.splits)

lemma quantity_foldl_applyComponent: "quantity (foldl applyComponent m cs) = quantity m"
  by (induction cs arbitrary: m)
    (simp_all add: applyComponent_def quantity_foldl_pushAffix quantity_foldl_enhanceStat Let_def)

lemma quantity_performMutation: "quantity (performMutation b cs gs now) = quantity b"
  by (simp add: performMutation_def Let_def quantity_foldl_applyComponent split: prod.splits)


lemma length_map_filter_le: "length (List.map_filter f xs) \<le> length xs"
  by (induction xs) (auto split: option.splits)

lemma map_filter_length_eq:
  "length (List.map_filter f xs) = length xs \<Longrightarrow> map f xs = map Some (List.map_filter f xs)"
proof (induction xs)
  case Nil
  then show ?case by simp
next
  case (Cons x xs)
  show ?case
  proof (cases "f x")
    case None
    with Cons.prems length_map_filter_le [of f xs] show ?thesis
      by simp
  next
    case (Some y)
    with Cons show ?thesis by simp
  qed
qed

lemma mutate_ok:
  assumes "storageOk st"
  shows "storageOk (snd (mutate st session body env))"
proof -
  let ?frags = "\<lambda>g. getFragments st (g_id g)"
  let ?comps = "\<lambda>g. List.map_filter (\<lambda>i. find (\<lambda>f. f_id f = i) (?frags g))
                       (the (componentFragmentIds body))"
  consider
    (rejected) "snd (mutate st session body env) = st"
  | (accepted) g b where "\<not> falsy session" "getGameState st (the session) = Some g"
      "\<not> falsy (baseFragmentId body)" "componentFragmentIds body \<noteq> None"
      "the (componentFragmentIds body) \<noteq> []"
      "find (\<lambda>f. f_id f = the (baseFragmentId body)) (?frags g) = Some b"
      "f_type b = ''base_item''"
      "length (?comps g) = length (the (componentFragmentIds body))"
      "filter (\<lambda>f. f_type f \<noteq> ''component'' \<and> f_type f \<noteq> ''modifier'') (?comps g) = []"
      "int (length (?comps g)) \<le> 2 + mutationSlotsLevel g"
      "calculateMutationCost b (?comps g) \<le> flux g"
  proof (cases "falsy session")
    case True
    then have "snd (mutate st session body env) = st" by (simp add: mutate_def)
    then show ?thesis by (rule rejected)
  next
    case nf: False
    show ?thesis
    proof (cases "getGameState st (the session)")
      case None
      with nf have "snd (mutate st session body env) = st" by (simp add: mutate_def)
      then show ?thesis by (rule rejected)
    next
      case (Some g)
      show ?thesis
      proof (cases "falsy (baseFragmentId body) \<or> componentFragmentIds body = None
                    \<or> length (the (componentFragmentIds body)) = 0")
        case True
        with nf Some have "snd (mutate st session body env) = st" by (simp add: mutate_def)
        then show ?thesis by (rule rejected)
      next
        case req: False
        show ?thesis
        proof (cases "find (\<lambda>f. f_id f = the (baseFragmentId body)) (?frags g)")
          case None
          with nf Some req have "snd (mutate st session body env) = st"
            by (simp add: mutate_def Let_def)
          then show ?thesis by (rule rejected)
        next
          case b: (Some b)
          show ?thesis
          proof (cases "f_type b = ''base_item''
                        \<and> length (?comps g) = length (the (componentFragmentIds body))
                        \<and> filter (\<lambda>f. f_type f \<noteq> ''component'' \<and> f_type f \<noteq> ''modifier'')
                             (?comps g) = []
                        \<and> int (length (?comps g)) \<le> 2 + mutationSlotsLevel g
                        \<and> calculateMutationCost b (?comps g) \<le> flux g")
            case True
            with nf Some req b show ?thesis by (intro accepted [of g b]) auto
          next
            case False
            with nf Some req b have "snd (mutate st session body env) = st"
              by (auto simp: mutate_def Let_def)
            then show ?thesis by (rule rejected)
          qed
        qed
      qed
    qed
  qed
  then show ?thesis
  proof cases
    case rejected
    then show ?thesis using assms by simp
  next
    case accepted
    obtain base where base: "baseFragmentId body = Some base" "base \<noteq> []"
      using accepted(3) by (auto simp: falsy_def split: option.splits)
    obtain ids where ids: "componentFragmentIds body = Some ids" "ids \<noteq> []"
      using accepted(4,5) by auto
    have found: "map (\<lambda>i. find (\<lambda>f. f_id f = i) (?frags g)) ids = map Some (?comps g)"
      using accepted(8) ids by (simp add: map_filter_length_eq)
    have valid: "\<forall>c\<in>set (?comps g). f_type c = ''component'' \<or> f_type c = ''modifier''"
      using accepted(9) by (auto simp: filter_empty_conv)
    have gok: "gameStateOk g" using assms accepted(2) by (rule getGameState_ok)
    have bq: "1 \<le> quantity b"
      using assms accepted(6) by (rule getFragments_quantity)
    note eq = mutate_accepted [OF accepted(1,2) base ids _ accepted(7) found valid
        accepted(10,11), of env]
    have "find (\<lambda>f. f_id f = base) (?frags g) = Some b"
      using accepted(6) base by simp
    note eq' = eq [OF this]
    show ?thesis
      unfolding eq' using assms gok bq accepted(11)
      by (auto simp: Let_def storageOk_def list_all_iff gameStateOk_def
          quantity_performMutation)
  qed
qed


subsection \<open>The claims about the routes\<close>

lemma reachable_storageOk: "reachable st \<Longrightarrow> storageOk st"
  by (induction rule: reachable.induct)
    (simp_all add: storageOk_def gamestate_ok [unfolded storageOk_def]
      spin_ok [unfolded storageOk_def] shatter_ok [unfolded storageOk_def]
      sell_ok [unfolded storageOk_def] upgrade_ok [unfolded storageOk_def]
      mutate_ok [unfolded storageOk_def])

text \<open>
  C2. In every storage that the routes produce from a database without game states (a
  first visit creates one with flux 1000 and all levels 1), by any sequence of first
  visits, spins, shatters, sales, upgrades and mutations, every game state has a flux of
  at least 0 and every one of its four levels is at least 1.
\<close>

theorem reachable_flux_and_levels:
  assumes "reachable st"
  shows "\<forall>g\<in>set (gameStates st).
           0 \<le> flux g \<and> 1 \<le> spinSpeedLevel g \<and> 1 \<le> rarityOddsLevel g
           \<and> 1 \<le> fluxCostLevel g \<and> 1 \<le> mutationSlotsLevel g"
  using reachable_storageOk [OF assms]
  by (simp add: storageOk_def list_all_iff gameStateOk_def)

theorem reachable_flux_and_levels_witness:
  "reachable sampleReached
   \<and> map flux (gameStates sampleReached) = [975]
   \<and> list_all (\<lambda>g. 0 \<le> flux g \<and> 1 \<le> spinSpeedLevel g \<and> 1 \<le> rarityOddsLevel g
                     \<and> 1 \<le> fluxCostLevel g \<and> 1 \<le> mutationSlotsLevel g)
       (gameStates sampleReached)"
proof -
  have r: "reachable sampleReached"
    unfolding sampleReached_def initialStorage_def
    by (intro reachable.spin reachable.gamestate reachable.initial)
  have f: "map flux (gameStates sampleReached) = [975]"
    by (simp add: sampleReached_def spin_def gamestate_def initialStorage_def sampleEnv_def
        falsy_def getGameState_def createGameState_def createFragment_def updateGameState_def
        Let_def)
  show ?thesis using r f reachable_flux_and_levels [OF r] by (simp add: list_all_iff)
qed

lemma performMutation_sample:
  "performMutation sampleBase [sampleComponent] sampleGameState 5 =
     sampleBase\<lparr>f_id := [], f_name := ''Mutated Sword'',
       affixes := [\<lparr>a_name = ''Void Iron - Void Affinity'', a_value = 7,
                     a_source = ''mutation''\<rparr>]\<rparr>"
proof -
  have n: "next 5 = (rd (95802 / 233280), 95802)"
    by (simp add: next_def fl_def jsRem_def)
  have v: "\<not> rd (95802 / 233280) < rd 0.1" "\<lfloor>rd (10 * rd 0.7)\<rfloor> = 7"
    by (simp_all add: rd_eval)
  show ?thesis
    using v
    by (simp add: performMutation_def applyComponent_def enhanceStat_def pushAffix_def
        hasKey_def VoidRNG_new_def random_def n Let_def sampleBase_def sampleComponent_def)
qed

text \<open>
  C3. A mutation request that passes every check is charged the full cost, and the base
  fragment and all listed components are deleted, whatever the success draw: the storage
  left has the flux of the session's game state lowered by \<^verbatim>\<open>calculateMutationCost\<close>
  (and its update time set) and no fragment whose id is the base's or a listed one. When
  the draw is not below the success rate, this is the whole change and the response has no
  result fragment; otherwise the mutated fragment is added as well.
\<close>

theorem mutate_consumes_inputs:
  assumes "\<not> falsy session"
    and "getGameState st (the session) = Some gameState"
    and "baseFragmentId body = Some base" and "base \<noteq> []"
    and "componentFragmentIds body = Some ids" and "ids \<noteq> []"
    and "find (\<lambda>f. f_id f = base) (getFragments st (g_id gameState)) = Some baseFragment"
    and "f_type baseFragment = ''base_item''"
    and "map (\<lambda>i. find (\<lambda>f. f_id f = i) (getFragments st (g_id gameState))) ids
           = map Some components"
    and "\<forall>c\<in>set components. f_type c = ''component'' \<or> f_type c = ''modifier''"
    and "int (length components) \<le> 2 + mutationSlotsLevel gameState"
    and "calculateMutationCost baseFragment components \<le> flux gameState"
  shows "mutate st session body env =
     (let fluxCost = calculateMutationCost baseFragment components;
          successRate = calculateMutationSuccessRate baseFragment components gameState;
          st2 = st\<lparr>gameStates :=
                     map (\<lambda>g. if userId g = the session
                               then g\<lparr>flux := flux gameState - fluxCost,
                                      g_updatedAt := dateNow env 0\<rparr>
                               else g) (gameStates st),
                   fragments := filter (\<lambda>f. f_id f \<notin> set (base # ids)) (fragments st)\<rparr>
      in if mathRandom env < successRate
         then (let created =
                     (performMutation baseFragment components gameState (dateNow env 1))
                       \<lparr>f_id := randomUUID env 0, gameStateId := g_id gameState,
                        f_createdAt := dateNow env 2\<rparr>
               in (MutationJson True (Some created) (base # ids) fluxCost
                     (Math_round (successRate * 100)),
                   st2\<lparr>fragments := fragments st2 @ [created]\<rparr>))
         else (MutationJson False None (base # ids) fluxCost (Math_round (successRate * 100)),
               st2))"
  using assms by (rule mutate_accepted)

theorem mutate_consumes_inputs_witness:
  "\<not> falsy (Some ''u1'') \<and> getGameState sampleStorage (the (Some ''u1'')) = Some sampleGameState
   \<and> find (\<lambda>f. f_id f = ''b1'') (getFragments sampleStorage (g_id sampleGameState))
       = Some sampleBase
   \<and> f_type sampleBase = ''base_item''
   \<and> map (\<lambda>i. find (\<lambda>f. f_id f = i) (getFragments sampleStorage (g_id sampleGameState)))
        [''c1''] = map Some [sampleComponent]
   \<and> list_all (\<lambda>c. f_type c = ''component'' \<or> f_type c = ''modifier'') [sampleComponent]
   \<and> int (length [sampleComponent]) \<le> 2 + mutationSlotsLevel sampleGameState
   \<and> calculateMutationCost sampleBase [sampleComponent] \<le> flux sampleGameState
   \<and> mutate sampleStorage (Some ''u1'')
        \<lparr>baseFragmentId = Some ''b1'', componentFragmentIds = Some [''c1'']\<rparr> (sampleEnv 0.9)
      = (MutationJson False None [''b1'', ''c1''] 250 85,
         \<lparr>gameStates = [sampleGameState\<lparr>flux := 750, g_updatedAt := 5\<rparr>], fragments = [],
          marketplaceListings = []\<rparr>)
   \<and> mutate sampleStorage (Some ''u1'')
        \<lparr>baseFragmentId = Some ''b1'', componentFragmentIds = Some [''c1'']\<rparr> (sampleEnv 0.5)
      = (MutationJson True
           (Some (sampleBase\<lparr>f_id := ''n1'', f_name := ''Mutated Sword'',
                    affixes := [\<lparr>a_name = ''Void Iron - Void Affinity'', a_value = 7,
                                  a_source = ''mutation''\<rparr>],
                    f_createdAt := 5\<rparr>))
           [''b1'', ''c1''] 250 85,
         \<lparr>gameStates = [sampleGameState\<lparr>flux := 750, g_updatedAt := 5\<rparr>],
          fragments =
            [sampleBase\<lparr>f_id := ''n1'', f_name := ''Mutated Sword'',
               affixes := [\<lparr>a_name = ''Void Iron - Void Affinity'', a_value = 7,
                             a_source = ''mutation''\<rparr>],
               f_createdAt := 5\<rparr>],
          marketplaceListings = []\<rparr>)"
proof -
  have g: "getGameState sampleStorage (the (Some ''u1'')) = Some sampleGameState"
    by (simp add: getGameState_def sampleStorage_def sampleGameState_def)
  have frags: "getFragments sampleStorage (g_id sampleGameState) = [sampleBase, sampleComponent]"
    by (simp add: getFragments_def sampleStorage_def sampleGameState_def sampleBase_def
        sampleComponent_def)
  have b: "find (\<lambda>f. f_id f = ''b1'') (getFragments sampleStorage (g_id sampleGameState))
           = Some sampleBase"
    unfolding frags by (simp add: sampleBase_def)
  have c: "map (\<lambda>i. find (\<lambda>f. f_id f = i) (getFragments sampleStorage (g_id sampleGameState)))
             [''c1''] = map Some [sampleComponent]"
    unfolding frags by (simp add: sampleBase_def sampleComponent_def)
  have t: "f_type sampleBase = ''base_item''"
    "\<forall>c\<in>set [sampleComponent]. f_type c = ''component'' \<or> f_type c = ''modifier''"
    by (simp_all add: sampleBase_def sampleComponent_def)
  have cost: "calculateMutationCost sampleBase [sampleComponent] = 250"
    by (simp add: calculateMutationCost_def orElse_def costMultipliers_def sampleBase_def
        sampleComponent_def)
  have lit: "rd 0.85 \<noteq> 0" "rd 0.05 \<le> rd 0.85" "rd 0.85 \<le> rd 0.95"
    "\<not> 0.9 < rd 0.85" "0.5 < rd 0.85" "Math_round (rd 0.85 * 100) = 85"
    by (simp_all add: Math_round_def rd_eval)
  have rate: "calculateMutationSuccessRate sampleBase [sampleComponent] sampleGameState = rd 0.85"
    using lit(1-3)
    by (simp add: calculateMutationSuccessRate_def orElse_def raritySuccessRates_def
        sampleBase_def sampleGameState_def)
  have n: "int (length [sampleComponent]) \<le> 2 + mutationSlotsLevel sampleGameState"
    "calculateMutationCost sampleBase [sampleComponent] \<le> flux sampleGameState"
    unfolding cost by (simp_all add: sampleGameState_def)
  have s: "\<not> falsy (Some ''u1'')" by (simp add: falsy_def)
  have "mutate sampleStorage (Some ''u1'')
          \<lparr>baseFragmentId = Some ''b1'', componentFragmentIds = Some [''c1'']\<rparr> (sampleEnv 0.9)
        = (MutationJson False None [''b1'', ''c1''] 250 85,
           \<lparr>gameStates = [sampleGameState\<lparr>flux := 750, g_updatedAt := 5\<rparr>], fragments = [],
            marketplaceListings = []\<rparr>)"
    using mutate_consumes_inputs [OF s g _ _ _ _ b t(1) c t(2) n,
        of "\<lparr>baseFragmentId = Some ''b1'', componentFragmentIds = Some [''c1'']\<rparr>"
          "sampleEnv 0.9"] lit(4,6)
    by (simp add: cost rate Let_def sampleEnv_def)
      (simp add: sampleStorage_def sampleGameState_def sampleBase_def sampleComponent_def
        sampleEnv_def)
  moreover have "mutate sampleStorage (Some ''u1'')
        \<lparr>baseFragmentId = Some ''b1'', componentFragmentIds = Some [''c1'']\<rparr> (sampleEnv 0.5)
      = (MutationJson True
           (Some (sampleBase\<lparr>f_id := ''n1'', f_name := ''Mutated Sword'',
                    affixes := [\<lparr>a_name = ''Void Iron - Void Affinity'', a_value = 7,
                                  a_source = ''mutation''\<rparr>],
                    f_createdAt := 5\<rparr>))
           [''b1'', ''c1''] 250 85,
         \<lparr>gameStates = [sampleGameState\<lparr>flux := 750, g_updatedAt := 5\<rparr>],
          fragments =
            [sampleBase\<lparr>f_id := ''n1'', f_name := ''Mutated Sword'',
               affixes := [\<lparr>a_name = ''Void Iron - Void Affinity'', a_value = 7,
                             a_source = ''mutation''\<rparr>],
               f_createdAt := 5\<rparr>],
          marketplaceListings = []\<rparr>)"
    using mutate_consumes_inputs [OF s g _ _ _ _ b t(1) c t(2) n,
        of "\<lparr>baseFragmentId = Some ''b1'', componentFragmentIds = Some [''c1'']\<rparr>"
          "sampleEnv 0.5"] lit(5,6)
    by (simp add: cost rate Let_def sampleEnv_def performMutation_sample)
      (simp add: sampleStorage_def sampleGameState_def sampleBase_def sampleComponent_def
        sampleEnv_def)
  ultimately show ?thesis using s g b c t n by simp
qed

text \<open>
  C4. A mutation request whose base fragment is not a base item, or one of whose listed
  components is neither a component nor a modifier, or which lists more than
  \<open>2 + mutationSlotsLevel\<close> components, or whose cost exceeds the flux, is answered
  with status 400 and leaves the storage as it was: nothing is deleted or created and
  the flux is unchanged.
\<close>

theorem mutate_rejects_unchanged:
  assumes "\<not> falsy session"
    and "getGameState st (the session) = Some gameState"
    and "baseFragmentId body = Some base" and "base \<noteq> []"
    and "componentFragmentIds body = Some ids" and "ids \<noteq> []"
    and "find (\<lambda>f. f_id f = base) (getFragments st (g_id gameState)) = Some baseFragment"
    and "f_type baseFragment \<noteq> ''base_item'' \<or>
         (map (\<lambda>i. find (\<lambda>f. f_id f = i) (getFragments st (g_id gameState))) ids
            = map Some components
          \<and> ((\<exists>c\<in>set components. f_type c \<noteq> ''component'' \<and> f_type c \<noteq> ''modifier'')
             \<or> 2 + mutationSlotsLevel gameState < int (length components)
             \<or> flux gameState < calculateMutationCost baseFragment components))"
  shows "\<exists>message. mutate st session body env = (Status 400 message, st)"
proof (cases "f_type baseFragment \<noteq> ''base_item''")
  case True
  then show ?thesis
    using assms(1-7) by (simp add: mutate_def falsy_def Let_def)
next
  case False
  with assms(8) have
    found: "map (\<lambda>i. find (\<lambda>f. f_id f = i) (getFragments st (g_id gameState))) ids
            = map Some components"
    and viol: "(\<exists>c\<in>set components. f_type c \<noteq> ''component'' \<and> f_type c \<noteq> ''modifier'')
             \<or> 2 + mutationSlotsLevel gameState < int (length components)
             \<or> flux gameState < calculateMutationCost baseFragment components"
    by auto
  have comps: "List.map_filter (\<lambda>i. find (\<lambda>f. f_id f = i) (getFragments st (g_id gameState))) ids
               = components"
    using found by (rule map_filter_all_Some)
  have len: "length components = length ids"
    using found by (metis length_map)
  have inv: "(\<exists>c\<in>set components. f_type c \<noteq> ''component'' \<and> f_type c \<noteq> ''modifier'')
             \<longleftrightarrow> filter (\<lambda>f. f_type f \<noteq> ''component'' \<and> f_type f \<noteq> ''modifier'') components \<noteq> []"
    by (auto simp: filter_empty_conv)
  show ?thesis
    using assms(1-7) False viol
    by (auto simp: mutate_def falsy_def Let_def comps len inv)
qed

theorem mutate_rejects_unchanged_witness:
  "\<not> falsy (Some ''u1'') \<and> getGameState sampleStorage (the (Some ''u1'')) = Some sampleGameState
   \<and> find (\<lambda>f. f_id f = ''b1'') (getFragments sampleStorage (g_id sampleGameState))
       = Some sampleBase
   \<and> map (\<lambda>i. find (\<lambda>f. f_id f = i) (getFragments sampleStorage (g_id sampleGameState)))
        [''c1'', ''c1'', ''c1'', ''c1'']
       = map Some [sampleComponent, sampleComponent, sampleComponent, sampleComponent]
   \<and> 2 + mutationSlotsLevel sampleGameState
       < int (length [sampleComponent, sampleComponent, sampleComponent, sampleComponent])
   \<and> mutate sampleStorage (Some ''u1'')
        \<lparr>baseFragmentId = Some ''b1'',
         componentFragmentIds = Some [''c1'', ''c1'', ''c1'', ''c1'']\<rparr> (sampleEnv 0)
      = (Status 400 ''Too many components. Maximum is 3'', sampleStorage)"
proof -
  have g: "getGameState sampleStorage (the (Some ''u1'')) = Some sampleGameState"
    by (simp add: getGameState_def sampleStorage_def sampleGameState_def)
  have frags: "getFragments sampleStorage (g_id sampleGameState) = [sampleBase, sampleComponent]"
    by (simp add: getFragments_def sampleStorage_def sampleGameState_def sampleBase_def
        sampleComponent_def)
  have b: "find (\<lambda>f. f_id f = ''b1'') (getFragments sampleStorage (g_id sampleGameState))
           = Some sampleBase"
    unfolding frags by (simp add: sampleBase_def)
  have c: "map (\<lambda>i. find (\<lambda>f. f_id f = i) (getFragments sampleStorage (g_id sampleGameState)))
             [''c1'', ''c1'', ''c1'', ''c1'']
           = map Some [sampleComponent, sampleComponent, sampleComponent, sampleComponent]"
    unfolding frags by (simp add: sampleBase_def sampleComponent_def)
  have n: "2 + mutationSlotsLevel sampleGameState
           < int (length [sampleComponent, sampleComponent, sampleComponent, sampleComponent])"
    by (simp add: sampleGameState_def)
  have s: "\<not> falsy (Some ''u1'')" by (simp add: falsy_def)
  have t: "f_type sampleBase = ''base_item''" "f_type sampleComponent = ''component''"
    by (simp_all add: sampleBase_def sampleComponent_def)
  have v: "f_type sampleBase \<noteq> ''base_item'' \<or>
         (map (\<lambda>i. find (\<lambda>f. f_id f = i) (getFragments sampleStorage (g_id sampleGameState)))
            [''c1'', ''c1'', ''c1'', ''c1'']
            = map Some [sampleComponent, sampleComponent, sampleComponent, sampleComponent]
          \<and> ((\<exists>c\<in>set [sampleComponent, sampleComponent, sampleComponent, sampleComponent].
                 f_type c \<noteq> ''component'' \<and> f_type c \<noteq> ''modifier'')
             \<or> 2 + mutationSlotsLevel sampleGameState
                 < int (length [sampleComponent, sampleComponent, sampleComponent, sampleComponent])
             \<or> flux sampleGameState
                 < calculateMutationCost sampleBase
                     [sampleComponent, sampleComponent, sampleComponent, sampleComponent]))"
    using c n by blast
  obtain message where m: "mutate sampleStorage (Some ''u1'')
        \<lparr>baseFragmentId = Some ''b1'',
         componentFragmentIds = Some [''c1'', ''c1'', ''c1'', ''c1'']\<rparr> (sampleEnv 0)
      = (Status 400 message, sampleStorage)"
    using mutate_rejects_unchanged [OF s g _ _ _ _ b v,
        of "\<lparr>baseFragmentId = Some ''b1'',
              componentFragmentIds = Some [''c1'', ''c1'', ''c1'', ''c1'']\<rparr>" "sampleEnv 0"]
    by auto
  have "fst (mutate sampleStorage (Some ''u1'')
        \<lparr>baseFragmentId = Some ''b1'',
         componentFragmentIds = Some [''c1'', ''c1'', ''c1'', ''c1'']\<rparr> (sampleEnv 0))
      = Status 400 ''Too many components. Maximum is 3''"
  proof -
    have fc: "f_id sampleBase = ''b1''" "f_id sampleComponent = ''c1''"
      by (simp_all add: sampleBase_def sampleComponent_def)
    have l: "mutationSlotsLevel sampleGameState = 1" by (simp add: sampleGameState_def)
    show ?thesis
      using g b t
      by (simp add: mutate_def Let_def falsy_def frags fc l showInt_def showNat.simps)
  qed
  with m have "message = ''Too many components. Maximum is 3''" by simp
  with m show ?thesis using s g b c n by blast
qed

section \<open>performMutation writes only to the objects it allocates\<close>

lemma nth_old: "take n h = h0 \<Longrightarrow> a < length h0 \<Longrightarrow> h ! a = h0 ! a \<and> a < length h"
  by (metis length_take min_less_iff_conj nth_take)

lemma get_old:
  assumes "take n h = h0" and "a < length h0"
  shows "getFragment h a = getFragment h0 a" and "getStats h a = getStats h0 a"
    and "getMods h a = getMods h0 a" and "getAffixes h a = getAffixes h0 a"
  using nth_old [OF assms] assms(2)
  by (simp_all add: getFragment_def getStats_def getMods_def getAffixes_def)

lemma get_Some_lt:
  "getFragment h a = Some f \<Longrightarrow> a < length h"
  "getStats h a = Some s \<Longrightarrow> a < length h"
  "getMods h a = Some ms \<Longrightarrow> a < length h"
  "getAffixes h a = Some as \<Longrightarrow> a < length h"
  by (simp_all add: getFragment_def getStats_def getMods_def getAffixes_def split: if_splits)

lemma fragmentOf_simps [simp]:
  "f_name (fragmentOf f s ms as) = o_name f" "f_type (fragmentOf f s ms as) = o_type f"
  "f_rarity (fragmentOf f s ms as) = o_rarity f" "baseStats (fragmentOf f s ms as) = s"
  "implicitMods (fragmentOf f s ms as) = ms" "affixes (fragmentOf f s ms as) = as"
  "(fragmentOf f s ms as)\<lparr>affixes := as'\<rparr> = fragmentOf f s ms as'"
  "(fragmentOf f s ms as)\<lparr>baseStats := s'\<rparr> = fragmentOf f s' ms as"
  "(fragmentOf f s ms as)\<lparr>f_rarity := r\<rparr> = fragmentOf (f\<lparr>o_rarity := r\<rparr>) s ms as"
  "(fragmentOf f s ms as)\<lparr>f_name := n\<rparr> = fragmentOf (f\<lparr>o_name := n\<rparr>) s ms as"
  by (simp_all add: fragmentOf_def)

lemma fragmentAt_SomeD:
  assumes "fragmentAt h a = Some F"
  obtains f s ms as where "getFragment h a = Some f" "getStats h (o_baseStats f) = Some s"
    "getMods h (o_implicitMods f) = Some ms" "getAffixes h (o_affixes f) = Some as"
    "F = fragmentOf f s ms as"
  using assms by (auto simp: fragmentAt_def split: option.splits)

lemma fragmentAtI:
  "getFragment h a = Some f \<Longrightarrow> getStats h (o_baseStats f) = Some s
     \<Longrightarrow> getMods h (o_implicitMods f) = Some ms \<Longrightarrow> getAffixes h (o_affixes f) = Some as
     \<Longrightarrow> fragmentAt h a = Some (fragmentOf f s ms as)"
  by (simp add: fragmentAt_def)

lemma fragmentAt_old:
  assumes "take n h = h0" and "fragmentAt h0 a = Some F"
  shows "fragmentAt h a = Some F"
proof -
  from assms(2) obtain f s ms as where f: "getFragment h0 a = Some f"
    "getStats h0 (o_baseStats f) = Some s" "getMods h0 (o_implicitMods f) = Some ms"
    "getAffixes h0 (o_affixes f) = Some as" "F = fragmentOf f s ms as"
    by (rule fragmentAt_SomeD)
  have "getFragment h a = Some f" "getStats h (o_baseStats f) = Some s"
    "getMods h (o_implicitMods f) = Some ms" "getAffixes h (o_affixes f) = Some as"
    using f get_old [OF assms(1)] get_Some_lt by metis+
  then show ?thesis using f(5) by (simp add: fragmentAt_def)
qed

lemma get_update:
  "getFragment (h[a := ob]) b =
     (if b = a \<and> a < length h then (case ob of AFragment f \<Rightarrow> Some f | _ \<Rightarrow> None)
      else getFragment h b)"
  "getStats (h[a := ob]) b =
     (if b = a \<and> a < length h then (case ob of AStats s \<Rightarrow> Some s | _ \<Rightarrow> None)
      else getStats h b)"
  "getMods (h[a := ob]) b =
     (if b = a \<and> a < length h then (case ob of AMods s \<Rightarrow> Some s | _ \<Rightarrow> None)
      else getMods h b)"
  "getAffixes (h[a := ob]) b =
     (if b = a \<and> a < length h then (case ob of AnAffixes s \<Rightarrow> Some s | _ \<Rightarrow> None)
      else getAffixes h b)"
  by (auto simp: getFragment_def getStats_def getMods_def getAffixes_def)

lemma mutatingE:
  assumes "mutating h0 h M"
  obtains m stats mods as where "length h = length h0 + 4" "take (length h0) h = h0"
    "getFragment h (length h0 + 3) = Some m" "o_affixes m = length h0"
    "o_baseStats m = length h0 + 1" "o_implicitMods m = length h0 + 2"
    "getAffixes h (length h0) = Some as" "getStats h (length h0 + 1) = Some stats"
    "getMods h (length h0 + 2) = Some mods" "M = fragmentOf m stats mods as"
  using assms unfolding mutating_def by blast

lemma pushAffixAt_step:
  assumes "mutating h0 h M" and "fragmentAt h0 c = Some C"
  shows "\<exists>h'. pushAffixAt (length h0 + 3) c sc h md = Some h'
              \<and> mutating h0 h' (pushAffix (f_name C) sc M md)"
proof -
  let ?n = "length h0"
  from assms(1) obtain m stats mods as where len: "length h = ?n + 4"
    and old: "take ?n h = h0"
    and m: "getFragment h (?n + 3) = Some m" "o_affixes m = ?n" "o_baseStats m = ?n + 1"
      "o_implicitMods m = ?n + 2"
    and parts: "getAffixes h ?n = Some as" "getStats h (?n + 1) = Some stats"
      "getMods h (?n + 2) = Some mods"
    and M: "M = fragmentOf m stats mods as"
    by (rule mutatingE)
  from fragmentAt_old [OF old assms(2)] obtain cf cs cms cas where
    c: "getFragment h c = Some cf" "C = fragmentOf cf cs cms cas"
    by (rule fragmentAt_SomeD)
  let ?new = "\<lparr>a_name = o_name cf @ '' - '' @ m_name md, a_value = sc (m_value md),
                a_source = ''mutation''\<rparr>"
  let ?h' = "h[?n := AnAffixes (as @ [?new])]"
  have step: "pushAffixAt (?n + 3) c sc h md = Some ?h'"
    by (simp add: pushAffixAt_def m c parts)
  have "mutating h0 ?h' (fragmentOf m stats mods (as @ [?new]))"
    unfolding mutating_def using len old m parts
    by (simp add: get_update)
  moreover have "pushAffix (f_name C) sc M md = fragmentOf m stats mods (as @ [?new])"
    by (simp add: pushAffix_def M c(2))
  ultimately show ?thesis using step by simp
qed

lemma enhanceStatAt_step:
  assumes "mutating h0 h M" and "fragmentAt h0 c = Some C" and "stat \<in> fst ` set (baseStats C)"
  shows "\<exists>h'. enhanceStatAt (length h0 + 3) c h stat = Some h'
              \<and> mutating h0 h' (enhanceStat C M stat)"
proof -
  let ?n = "length h0"
  from assms(1) obtain m stats mods as where len: "length h = ?n + 4"
    and old: "take ?n h = h0"
    and m: "getFragment h (?n + 3) = Some m" "o_affixes m = ?n" "o_baseStats m = ?n + 1"
      "o_implicitMods m = ?n + 2"
    and parts: "getAffixes h ?n = Some as" "getStats h (?n + 1) = Some stats"
      "getMods h (?n + 2) = Some mods"
    and M: "M = fragmentOf m stats mods as"
    by (rule mutatingE)
  from fragmentAt_old [OF old assms(2)] obtain cf cs cms cas where
    c: "getFragment h c = Some cf" "getStats h (o_baseStats cf) = Some cs"
      "C = fragmentOf cf cs cms cas"
    by (rule fragmentAt_SomeD)
  note m' = m [simplified] and parts' = parts [simplified]
  from assms(3) c(3) obtain v where v: "map_of cs stat = Some v"
    by (cases "map_of cs stat") (auto simp: map_of_eq_None_iff)
  show ?thesis
  proof (cases "hasKey stat stats")
    case False
    then have "enhanceStatAt (?n + 3) c h stat = Some h" "enhanceStat C M stat = M"
      by (simp_all add: enhanceStatAt_def enhanceStat_def m' c parts' M)
    with assms(1) show ?thesis by simp
  next
    case True
    let ?s' = "addTo stat (real_of_int \<lfloor>rd (v * rd 0.5)\<rfloor>) stats"
    let ?h' = "h[?n + 1 := AStats ?s']"
    have step: "enhanceStatAt (?n + 3) c h stat = Some ?h'"
      using True by (simp add: enhanceStatAt_def m' c parts' v)
    have "mutating h0 ?h' (fragmentOf m ?s' mods as)"
      unfolding mutating_def using len old m' parts'
      by (simp add: get_update)
    moreover have "enhanceStat C M stat = fragmentOf m ?s' mods as"
      using True by (simp add: enhanceStat_def M c(3) v)
    ultimately show ?thesis using step by simp
  qed
qed


lemma forEach_steps:
  assumes "\<And>h M x. I h M \<Longrightarrow> x \<in> set xs \<Longrightarrow> \<exists>h'. body h x = Some h' \<and> I h' (f M x)"
    and "I h M"
  shows "\<exists>h'. forEach body xs h = Some h' \<and> I h' (foldl f M xs)"
  using assms
proof (induction xs arbitrary: h M)
  case Nil
  then show ?case by simp
next
  case (Cons x xs)
  from Cons.prems(1) [OF Cons.prems(2), of x] obtain h1 where
    h1: "body h x = Some h1" "I h1 (f M x)" by auto
  have "\<exists>h'. forEach body xs h1 = Some h' \<and> I h' (foldl f (f M x) xs)"
    by (rule Cons.IH [OF _ h1(2)]) (use Cons.prems(1) in auto)
  with h1(1) show ?case by simp
qed

lemma applyComponentAt_step:
  assumes "mutating h0 h M" and "fragmentAt h0 c = Some C"
  shows "\<exists>h'. applyComponentAt (length h0 + 3) h c = Some h'
              \<and> mutating h0 h' (applyComponent M C)"
proof -
  let ?n = "length h0"
  from assms(2) obtain cf cs cms cas where c0: "getFragment h0 c = Some cf"
    "getStats h0 (o_baseStats cf) = Some cs" "getMods h0 (o_implicitMods cf) = Some cms"
    and C: "C = fragmentOf cf cs cms cas"
    by (rule fragmentAt_SomeD)
  have reads: "getFragment h' c = Some cf" "getStats h' (o_baseStats cf) = Some cs"
    "getMods h' (o_implicitMods cf) = Some cms" if "mutating h0 h' M'" for h' M'
  proof -
    from that have "take ?n h' = h0" by (rule mutatingE)
    then show "getFragment h' c = Some cf" "getStats h' (o_baseStats cf) = Some cs"
      "getMods h' (o_implicitMods cf) = Some cms"
      using c0 get_old get_Some_lt by metis+
  qed
  have push: "\<exists>h''. forEach (pushAffixAt (?n + 3) c sc) cms h' = Some h''
                \<and> mutating h0 h'' (foldl (pushAffix (f_name C) sc) M' cms)"
    if "mutating h0 h' M'" for h' M' sc
    using pushAffixAt_step [OF _ assms(2)] that
    by (rule forEach_steps [where I = "mutating h0"])
  consider (component) "o_type cf = ''component''" | (modifier) "o_type cf \<noteq> ''component''"
    "o_type cf = ''modifier''" | (other) "o_type cf \<noteq> ''component''" "o_type cf \<noteq> ''modifier''"
    by blast
  then show ?thesis
  proof cases
    case component
    have "\<exists>h1. forEach (enhanceStatAt (?n + 3) c) (map fst cs) h = Some h1
            \<and> mutating h0 h1 (foldl (enhanceStat C) M (map fst cs))"
    proof (rule forEach_steps [where I = "mutating h0"])
      show "mutating h0 h M" by (rule assms(1))
    next
      fix h' M' x
      assume "mutating h0 h' M'" "x \<in> set (map fst cs)"
      then show "\<exists>h''. enhanceStatAt (?n + 3) c h' x = Some h''
                   \<and> mutating h0 h'' (enhanceStat C M' x)"
        using enhanceStatAt_step [OF _ assms(2), of h' M' x] by (simp add: C)
    qed
    then obtain h1 where h1: "forEach (enhanceStatAt (?n + 3) c) (map fst cs) h = Some h1"
      "mutating h0 h1 (foldl (enhanceStat C) M (map fst cs))" by blast
    from push [OF h1(2)] obtain h2 where
      h2: "forEach (pushAffixAt (?n + 3) c (\<lambda>v. real_of_int \<lfloor>rd (v * rd 0.7)\<rfloor>)) cms h1 = Some h2"
      "mutating h0 h2 (foldl (pushAffix (f_name C) (\<lambda>v. real_of_int \<lfloor>rd (v * rd 0.7)\<rfloor>))
                         (foldl (enhanceStat C) M (map fst cs)) cms)"
      by blast
    have "applyComponentAt (?n + 3) h c = Some h2"
      using component h1(1) h2(1) reads [OF assms(1)] reads(3) [OF h1(2)]
      by (simp add: applyComponentAt_def)
    moreover have "applyComponent M C =
        foldl (pushAffix (f_name C) (\<lambda>v. real_of_int \<lfloor>rd (v * rd 0.7)\<rfloor>))
          (foldl (enhanceStat C) M (map fst cs)) cms"
      using component by (simp add: applyComponent_def C Let_def)
    ultimately show ?thesis using h2(2) by simp
  next
    case modifier
    from push [OF assms(1)] obtain h2 where
      h2: "forEach (pushAffixAt (?n + 3) c (\<lambda>v. v)) cms h = Some h2"
      "mutating h0 h2 (foldl (pushAffix (f_name C) (\<lambda>v. v)) M cms)"
      by blast
    have "applyComponentAt (?n + 3) h c = Some h2"
      using modifier h2(1) reads [OF assms(1)] by (simp add: applyComponentAt_def)
    moreover have "applyComponent M C = foldl (pushAffix (f_name C) (\<lambda>v. v)) M cms"
      using modifier by (simp add: applyComponent_def C)
    ultimately show ?thesis using h2(2) by simp
  next
    case other
    have "applyComponentAt (?n + 3) h c = Some h"
      using other reads [OF assms(1)] by (simp add: applyComponentAt_def)
    moreover have "applyComponent M C = M"
      using other by (simp add: applyComponent_def C)
    ultimately show ?thesis using assms(1) by simp
  qed
qed


lemma get_append:
  "getFragment (h @ [a0, a1, a2, AFragment f]) (length h + 3) = Some f"
  "getAffixes (h @ [AnAffixes as, a1, a2, a3]) (length h) = Some as"
  "getStats (h @ [a0, AStats s, a2, a3]) (length h + 1) = Some s"
  "getMods (h @ [a0, a1, AMods ms, a3]) (length h + 2) = Some ms"
  by (simp_all add: getFragment_def getAffixes_def getStats_def getMods_def nth_append)

lemma performMutationAt_mutating:
  assumes "fragmentAt h0 b = Some B" and "\<forall>c\<in>set cs. fragmentAt h0 c \<noteq> None"
  shows "\<exists>h'. performMutationAt h0 b cs now = Some (length h0 + 3, h')
              \<and> mutating h0 h' (performMutation B (map (the \<circ> fragmentAt h0) cs) gs now)"
proof -
  let ?n = "length h0"
  from assms(1) obtain bf bs bms bas where b: "getFragment h0 b = Some bf"
    "getStats h0 (o_baseStats bf) = Some bs" "getMods h0 (o_implicitMods bf) = Some bms"
    "getAffixes h0 (o_affixes bf) = Some bas" and B: "B = fragmentOf bf bs bms bas"
    by (rule fragmentAt_SomeD)
  define mf where "mf = bf\<lparr>o_id := [], o_name := ''Mutated '' @ o_name bf, o_affixes := ?n,
                           o_baseStats := ?n + 1, o_implicitMods := ?n + 2\<rparr>"
  define h4 where "h4 = h0 @ [AnAffixes bas, AStats bs, AMods bms, AFragment mf]"
  define M0 where "M0 = B\<lparr>f_id := [], f_name := ''Mutated '' @ f_name B, affixes := affixes B,
                           baseStats := baseStats B, implicitMods := implicitMods B\<rparr>"
  define Cs where "Cs = map (the \<circ> fragmentAt h0) cs"
  have M0: "M0 = fragmentOf mf bs bms bas"
    by (simp add: M0_def B mf_def fragmentOf_def)
  have inv4: "mutating h0 h4 M0"
    unfolding mutating_def h4_def M0
    by (intro conjI exI [of _ mf] exI [of _ bs] exI [of _ bms] exI [of _ bas])
      (simp_all add: get_append get_append(3,4) [simplified] mf_def)
  have "\<exists>h5. forEach (applyComponentAt (?n + 3)) cs h4 = Some h5
          \<and> mutating h0 h5 (foldl (\<lambda>M c. applyComponent M (the (fragmentAt h0 c))) M0 cs)"
  proof (rule forEach_steps [where I = "mutating h0"])
    show "mutating h0 h4 M0" by (rule inv4)
  next
    fix h M x
    assume inv: "mutating h0 h M" and x: "x \<in> set cs"
    from x assms(2) have "fragmentAt h0 x = Some (the (fragmentAt h0 x))" by auto
    with inv show "\<exists>h'. applyComponentAt (?n + 3) h x = Some h'
                       \<and> mutating h0 h' (applyComponent M (the (fragmentAt h0 x)))"
      by (rule applyComponentAt_step)
  qed
  then obtain h5 where h5: "forEach (applyComponentAt (?n + 3)) cs h4 = Some h5"
    and inv5: "mutating h0 h5 (foldl applyComponent M0 Cs)"
    by (auto simp: Cs_def foldl_map)
  define M5 where "M5 = foldl applyComponent M0 Cs"
  obtain r rng' where r: "random 0 1 (VoidRNG_new None now) = (r, rng')"
    by (cases "random 0 1 (VoidRNG_new None now)")
  from inv5 obtain m5 stats mods as where len: "length h5 = ?n + 4"
    and old: "take ?n h5 = h0"
    and m5: "getFragment h5 (?n + 3) = Some m5" "o_affixes m5 = ?n" "o_baseStats m5 = ?n + 1"
      "o_implicitMods m5 = ?n + 2"
    and parts: "getAffixes h5 ?n = Some as" "getStats h5 (?n + 1) = Some stats"
      "getMods h5 (?n + 2) = Some mods"
    and M5: "M5 = fragmentOf m5 stats mods as"
    unfolding M5_def [symmetric] by (rule mutatingE)
  note m5' = m5 [simplified] and parts' = parts [simplified]
  define evolve where "evolve \<longleftrightarrow> r < rd 0.1 \<and> 0 \<le> indexOf rarityOrder (o_rarity m5)
      \<and> indexOf rarityOrder (o_rarity m5) < int (length rarityOrder) - 1"
  define m6 where "m6 = m5\<lparr>o_rarity := rarityOrder ! nat (indexOf rarityOrder (o_rarity m5) + 1),
                           o_name := ''Evolved '' @ o_name m5\<rparr>"
  have start: "performMutationAt h0 b cs now =
                 (if evolve then Some (?n + 3, h5[?n + 3 := AFragment m6]) else Some (?n + 3, h5))"
    using h5 m5(1)
    by (simp add: performMutationAt_def b alloc_def Let_def r h4_def mf_def evolve_def m6_def
        numeral_3_eq_3 numeral_2_eq_2)
  have pure: "performMutation B Cs gs now =
                (if evolve then fragmentOf m6 stats mods as else M5)"
    unfolding performMutation_def Let_def M0_def [symmetric] M5_def [symmetric] r prod.case
    by (simp add: M5 evolve_def m6_def)
  show ?thesis
  proof (cases evolve)
    case False
    with start pure inv5 show ?thesis by (simp add: M5_def Cs_def)
  next
    case True
    have "mutating h0 (h5[?n + 3 := AFragment m6]) (fragmentOf m6 stats mods as)"
      unfolding mutating_def using len old m5' parts'
      by (simp add: get_update m6_def)
    with True start pure show ?thesis by (simp add: Cs_def)
  qed
qed

text \<open>
  C10. \<^verbatim>\<open>performMutation\<close> does not modify its inputs. Called on a store in which the
  base fragment and every component are well formed, it returns; every object of the
  store it was entered with is unchanged afterwards, so the base fragment and every
  component denote the fragments they denoted before; the result and its
  \<^verbatim>\<open>baseStats\<close>, \<^verbatim>\<open>implicitMods\<close> and \<^verbatim>\<open>affixes\<close> are objects allocated by the
  call; and the result denotes the fragment that \<open>performMutation\<close> computes from the
  fragments denoted by the inputs.
\<close>

theorem performMutationAt_frame:
  assumes "wellFormed h baseFragment" and "\<forall>c\<in>set components. wellFormed h c"
  shows "\<exists>r h'. performMutationAt h baseFragment components now = Some (r, h')
           \<and> take (length h) h' = h
           \<and> fragmentAt h' baseFragment = fragmentAt h baseFragment
           \<and> (\<forall>c\<in>set components. fragmentAt h' c = fragmentAt h c)
           \<and> length h \<le> r
           \<and> (\<exists>m. getFragment h' r = Some m \<and> length h \<le> o_baseStats m
                    \<and> length h \<le> o_implicitMods m \<and> length h \<le> o_affixes m)
           \<and> fragmentAt h' r =
               Some (performMutation (the (fragmentAt h baseFragment))
                       (map (the \<circ> fragmentAt h) components) gameState now)"
proof -
  let ?n = "length h"
  let ?M = "performMutation (the (fragmentAt h baseFragment))
              (map (the \<circ> fragmentAt h) components) gameState now"
  from assms(1) have b: "fragmentAt h baseFragment = Some (the (fragmentAt h baseFragment))"
    by (simp add: wellFormed_def)
  from assms(2) have cs: "\<forall>c\<in>set components. fragmentAt h c \<noteq> None"
    by (simp add: wellFormed_def)
  from performMutationAt_mutating [OF b cs, of now gameState] obtain h' where
    run: "performMutationAt h baseFragment components now = Some (?n + 3, h')"
    and inv: "mutating h h' ?M"
    by blast
  from inv obtain m stats mods as where old: "take ?n h' = h"
    and m: "getFragment h' (?n + 3) = Some m" "o_affixes m = ?n" "o_baseStats m = ?n + 1"
      "o_implicitMods m = ?n + 2"
    and parts: "getAffixes h' ?n = Some as" "getStats h' (?n + 1) = Some stats"
      "getMods h' (?n + 2) = Some mods"
    and M: "?M = fragmentOf m stats mods as"
    by (rule mutatingE)
  have same: "fragmentAt h' a = fragmentAt h a" if "fragmentAt h a \<noteq> None" for a
    using that fragmentAt_old [OF old] by auto
  have "fragmentAt h' (?n + 3) = Some (fragmentOf m stats mods as)"
    using m parts by (intro fragmentAtI) simp_all
  then have res: "fragmentAt h' (?n + 3) = Some ?M"
    using M by simp
  have "\<exists>m. getFragment h' (?n + 3) = Some m \<and> ?n \<le> o_baseStats m
          \<and> ?n \<le> o_implicitMods m \<and> ?n \<le> o_affixes m"
    using m by simp
  with run old same b cs res show ?thesis by auto
qed

theorem performMutationAt_frame_witness:
  "wellFormed sampleStore 0 \<and> list_all (wellFormed sampleStore) [4]
   \<and> performMutationAt sampleStore 0 [4] 0 =
       Some (11, sampleStore @
         [AnAffixes
            [\<lparr>a_name = ''Void Iron - Void Affinity'', a_value = 7, a_source = ''mutation''\<rparr>,
             \<lparr>a_name = ''Void Iron - Void Affinity'', a_value = 7, a_source = ''mutation''\<rparr>],
          AStats [(''power'', 12), (''defense'', 7), (''speed'', 3)],
          AMods [\<lparr>m_name = ''Increased Damage'', m_value = 9\<rparr>],
          AFragment \<lparr>o_id = [], o_gameStateId = ''g1'', o_name = ''Mutated Mutated Sword'',
                     o_type = ''base_item'', o_rarity = ''common'', o_baseStats = 9,
                     o_implicitMods = 10, o_affixes = 8, o_isCorrupted = False,
                     o_quantity = 1, o_createdAt = 0\<rparr>])"
proof -
  have n: "next 0 = (rd (49297 / 233280), 49297)"
    by (simp add: next_def fl_def jsRem_def)
  have v: "\<not> rd (49297 / 233280) < rd 0.1" "\<lfloor>rd (10 * rd 0.7)\<rfloor> = 7"
    by (simp_all add: rd_eval)
  have w: "wellFormed sampleStore 0" "wellFormed sampleStore 4"
    by (simp_all add: wellFormed_def fragmentAt_def getFragment_def getStats_def getMods_def
        getAffixes_def sampleStore_def)
  have run: "performMutationAt sampleStore 0 [4] 0 =
       Some (11, sampleStore @
         [AnAffixes
            [\<lparr>a_name = ''Void Iron - Void Affinity'', a_value = 7, a_source = ''mutation''\<rparr>,
             \<lparr>a_name = ''Void Iron - Void Affinity'', a_value = 7, a_source = ''mutation''\<rparr>],
          AStats [(''power'', 12), (''defense'', 7), (''speed'', 3)],
          AMods [\<lparr>m_name = ''Increased Damage'', m_value = 9\<rparr>],
          AFragment \<lparr>o_id = [], o_gameStateId = ''g1'', o_name = ''Mutated Mutated Sword'',
                     o_type = ''base_item'', o_rarity = ''common'', o_baseStats = 9,
                     o_implicitMods = 10, o_affixes = 8, o_isCorrupted = False,
                     o_quantity = 1, o_createdAt = 0\<rparr>])"
    using v
    by (simp add: performMutationAt_def applyComponentAt_def enhanceStatAt_def pushAffixAt_def
        getFragment_def getStats_def getMods_def getAffixes_def alloc_def sampleStore_def
        VoidRNG_new_def random_def n hasKey_def Let_def)
  show ?thesis
    using w run performMutationAt_frame [of sampleStore 0 "[4]" 0] by simp
qed

end
